theory Spec2Isabelle
  imports Complex_Main
begin

section \<open>Identifiers and documents\<close>

text \<open>
  An ObjectId is identified with its hexadecimal rendering, a string.
  A JavaScript value that carries an id is either the string of that rendering
  (route parameters, \<^verbatim>\<open>req.userId\<close>) or an ObjectId object living at some heap address.
  \<^verbatim>\<open>===\<close> compares strings by content and objects by address; a string is never
  \<^verbatim>\<open>===\<close> to an object. Queries and document constructors cast either form to the id.
  Strings that do not denote an ObjectId (a cast error in the driver) are outside the model.
\<close>

type_synonym oid = string

datatype js_id = IdString oid | IdObject nat oid

fun toString :: "js_id \<Rightarrow> oid" where
  "toString (IdString h) = h"
| "toString (IdObject r h) = h"

fun strict_eq :: "js_id \<Rightarrow> js_id \<Rightarrow> bool" where
  "strict_eq (IdString a) (IdString b) = (a = b)"
| "strict_eq (IdObject r a) (IdObject r' b) = (r = r')"
| "strict_eq (IdString a) (IdObject r b) = False"
| "strict_eq (IdObject r a) (IdString b) = False"

datatype error =
    SelfFollowError
  | LikeTargetError
  | DuplicateKey
  | TypeError
  | ValidationError

datatype ltype = Story | Chapter | Comment

record like =
  l_id :: oid
  l_user :: oid
  l_story :: "oid option"
  l_chapter :: "oid option"
  l_comment :: "oid option"
  l_type :: ltype

record follow =
  f_id :: oid
  follower :: oid
  following :: oid
  isActive :: bool
  f_createdAt :: nat

record rating =
  r_id :: oid
  r_user :: oid
  r_story :: oid
  r_value :: int

record story_doc =
  author :: oid
  s_title :: string
  totalLikes :: int
  totalComments :: int
  averageRating :: rat
  ratingCount :: int

record chapter_doc =
  c_story :: oid
  c_title :: string
  chapterNumber :: nat
  c_likes :: int
  commentsCount :: int

record comment_doc =
  cm_id :: oid
  content :: string
  cm_user :: oid
  cm_story :: oid
  cm_chapter :: "oid option"
  parentComment :: "oid option"
  cm_likes :: int
  replies :: "oid list"
  isEdited :: bool
  editedAt :: "nat option"
  isDeleted :: bool
  deletedAt :: "nat option"
  createdAt :: nat

record user_doc =
  username :: string
  fullName :: string
  followersCount :: int
  followingCount :: int
  u_followers :: "oid list"
  u_following :: "oid list"

record notification_data =
  d_story :: "oid option"
  d_chapter :: "oid option"
  d_comment :: "oid option"
  d_user :: "oid option"

record notification =
  recipient :: oid
  sender :: "oid option"
  n_type :: string
  title :: string
  message :: string
  n_data :: notification_data
  actionUrl :: "string option"

text \<open>
  The database: one list of documents per relationship collection, a map from \<^verbatim>\<open>_id\<close> to
  document for the collections that are only read and updated by id, and the notification
  collection as the sequence of its insert operations (one batch of documents each), so
  that a bulk insert can be told from a run of single inserts.
\<close>

record db =
  likes :: "like list"
  follows :: "follow list"
  ratings :: "rating list"
  comments :: "comment_doc list"
  stories :: "oid \<rightharpoonup> story_doc"
  chapters :: "oid \<rightharpoonup> chapter_doc"
  users :: "oid \<rightharpoonup> user_doc"
  notification_inserts :: "notification list list"

definition all_notifications :: "db \<Rightarrow> notification list" where
  "all_notifications s = concat (notification_inserts s)"

section \<open>Like model (models/Like.js)\<close>

text \<open>The \<^verbatim>\<open>$inc\<close> updates of the hooks; \<^verbatim>\<open>findByIdAndUpdate\<close> does nothing when no
  document has the id.\<close>

definition inc_totalLikes :: "oid \<Rightarrow> int \<Rightarrow> db \<Rightarrow> db" where
  "inc_totalLikes sid d s =
     (case stories s sid of
        None \<Rightarrow> s
      | Some st \<Rightarrow> s\<lparr>stories := (stories s)(sid \<mapsto> st\<lparr>totalLikes := totalLikes st + d\<rparr>)\<rparr>)"

definition inc_chapter_likes :: "oid \<Rightarrow> int \<Rightarrow> db \<Rightarrow> db" where
  "inc_chapter_likes cid d s =
     (case chapters s cid of
        None \<Rightarrow> s
      | Some ch \<Rightarrow> s\<lparr>chapters := (chapters s)(cid \<mapsto> ch\<lparr>c_likes := c_likes ch + d\<rparr>)\<rparr>)"

definition inc_comment_likes :: "oid \<Rightarrow> int \<Rightarrow> db \<Rightarrow> db" where
  "inc_comment_likes cid d s =
     s\<lparr>comments := map (\<lambda>c. if cm_id c = cid then c\<lparr>cm_likes := cm_likes c + d\<rparr> else c)
                         (comments s)\<rparr>"

text \<open>\<^verbatim>\<open>likeSchema.pre('save')\<close>: exactly one target, and the type follows the target.\<close>

definition like_pre_save :: "like \<Rightarrow> error + like" where
  "like_pre_save l =
     (if length (filter (\<lambda>t. t \<noteq> None) [l_story l, l_chapter l, l_comment l]) \<noteq> 1
      then Inl LikeTargetError
      else Inr (if l_story l \<noteq> None then l\<lparr>l_type := Story\<rparr>
                else if l_chapter l \<noteq> None then l\<lparr>l_type := Chapter\<rparr>
                else if l_comment l \<noteq> None then l\<lparr>l_type := Comment\<rparr>
                else l))"

text \<open>\<^verbatim>\<open>likeSchema.post('save')\<close> and \<^verbatim>\<open>likeSchema.post('remove')\<close>.\<close>

definition like_post_save :: "like \<Rightarrow> db \<Rightarrow> db" where
  "like_post_save l s =
     (if l_type l = Story \<and> l_story l \<noteq> None then inc_totalLikes (the (l_story l)) 1 s
      else if l_type l = Chapter \<and> l_chapter l \<noteq> None then inc_chapter_likes (the (l_chapter l)) 1 s
      else if l_type l = Comment \<and> l_comment l \<noteq> None then inc_comment_likes (the (l_comment l)) 1 s
      else s)"

definition like_post_remove :: "like \<Rightarrow> db \<Rightarrow> db" where
  "like_post_remove l s =
     (if l_type l = Story \<and> l_story l \<noteq> None then inc_totalLikes (the (l_story l)) (- 1) s
      else if l_type l = Chapter \<and> l_chapter l \<noteq> None then inc_chapter_likes (the (l_chapter l)) (- 1) s
      else if l_type l = Comment \<and> l_comment l \<noteq> None then inc_comment_likes (the (l_comment l)) (- 1) s
      else s)"

text \<open>
  The three unique sparse indexes on (user, story), (user, chapter) and (user, comment).
  A compound sparse index holds every document that has at least one of its fields, with
  \<^verbatim>\<open>null\<close> for a field that is \<^verbatim>\<open>null\<close> or missing. Every Like document has a user (and
  its unused targets are stored as \<^verbatim>\<open>null\<close>, their default), so each index holds every
  row: an insert is refused when a stored row of the same user agrees with the new row on
  the story field, on the chapter field or on the comment field, \<^verbatim>\<open>null\<close> included.
\<close>

definition like_duplicate :: "like \<Rightarrow> like list \<Rightarrow> bool" where
  "like_duplicate l ls =
     list_ex (\<lambda>l'. l_user l' = l_user l \<and>
                (l_story l' = l_story l \<or> l_chapter l' = l_chapter l \<or> l_comment l' = l_comment l)) ls"

definition like_save :: "like \<Rightarrow> db \<Rightarrow> (error + unit) \<times> db" where
  "like_save l s =
     (case like_pre_save l of
        Inl e \<Rightarrow> (Inl e, s)
      | Inr l' \<Rightarrow>
          if like_duplicate l' (likes s) then (Inl DuplicateKey, s)
          else (Inr (), like_post_save l' (s\<lparr>likes := likes s @ [l']\<rparr>)))"

definition like_remove :: "like \<Rightarrow> db \<Rightarrow> db" where
  "like_remove l s = like_post_remove l (s\<lparr>likes := filter (\<lambda>x. l_id x \<noteq> l_id l) (likes s)\<rparr>)"

text \<open>The query \<^verbatim>\<open>{ user: userId, [targetType]: targetId }\<close>.\<close>

definition target_field :: "ltype \<Rightarrow> like \<Rightarrow> oid option" where
  "target_field ty l = (case ty of Story \<Rightarrow> l_story l | Chapter \<Rightarrow> l_chapter l | Comment \<Rightarrow> l_comment l)"

definition like_query :: "js_id \<Rightarrow> js_id \<Rightarrow> ltype \<Rightarrow> like \<Rightarrow> bool" where
  "like_query userId targetId targetType l \<longleftrightarrow>
     l_user l = toString userId \<and> target_field targetType l = Some (toString targetId)"

text \<open>\<^verbatim>\<open>new this({ user: userId, [targetType]: targetId, type: targetType })\<close>; the
  driver supplies the fresh \<^verbatim>\<open>_id\<close>.\<close>

definition new_like :: "oid \<Rightarrow> js_id \<Rightarrow> js_id \<Rightarrow> ltype \<Rightarrow> like" where
  "new_like fresh userId targetId targetType =
     \<lparr>l_id = fresh, l_user = toString userId,
      l_story = (if targetType = Story then Some (toString targetId) else None),
      l_chapter = (if targetType = Chapter then Some (toString targetId) else None),
      l_comment = (if targetType = Comment then Some (toString targetId) else None),
      l_type = targetType\<rparr>"

record like_result =
  liked :: bool
  lr_message :: string

text \<open>
  \<^verbatim>\<open>toggleLike\<close> after its \<^verbatim>\<open>await this.findOne(query)\<close>: the lookup result
  \<open>existingLike\<close> and the database the write then meets (the same one when no other request
  comes in between).
\<close>

definition toggleLike_from ::
  "like option \<Rightarrow> oid \<Rightarrow> js_id \<Rightarrow> js_id \<Rightarrow> ltype \<Rightarrow> db \<Rightarrow> (error + like_result) \<times> db" where
  "toggleLike_from existingLike fresh userId targetId targetType s =
     (case existingLike of
        Some l \<Rightarrow> (Inr \<lparr>liked = False, lr_message = ''Unliked successfully''\<rparr>, like_remove l s)
      | None \<Rightarrow>
          (case like_save (new_like fresh userId targetId targetType) s of
             (Inl e, s') \<Rightarrow> (Inl e, s')
           | (Inr _, s') \<Rightarrow> (Inr \<lparr>liked = True, lr_message = ''Liked successfully''\<rparr>, s')))"

definition toggleLike :: "oid \<Rightarrow> js_id \<Rightarrow> js_id \<Rightarrow> ltype \<Rightarrow> db \<Rightarrow> (error + like_result) \<times> db" where
  "toggleLike fresh userId targetId targetType s =
     toggleLike_from (find (like_query userId targetId targetType) (likes s))
       fresh userId targetId targetType s"

definition isLikedBy :: "js_id \<Rightarrow> js_id \<Rightarrow> ltype \<Rightarrow> db \<Rightarrow> bool" where
  "isLikedBy userId targetId targetType s = list_ex (like_query userId targetId targetType) (likes s)"

section \<open>Notification model (models/Notification.js)\<close>

text \<open>
  \<^verbatim>\<open>createNotification\<close> saves one document: one insert operation of one document.
  The length validators of the schema (title at most 100, message at most 500 characters)
  are not modelled; the texts built below stay under them for names and titles that
  respect their own limits (50 and 200 characters).
\<close>

definition createNotification :: "notification \<Rightarrow> db \<Rightarrow> notification \<times> db" where
  "createNotification n s = (n, s\<lparr>notification_inserts := notification_inserts s @ [[n]]\<rparr>)"

text \<open>\<^verbatim>\<open>user.fullName || user.username\<close>: the empty string is falsy.\<close>

definition display_name :: "user_doc \<Rightarrow> string" where
  "display_name u = (if fullName u = [] then username u else fullName u)"

definition ltype_name :: "ltype \<Rightarrow> string" where
  "ltype_name ty = (case ty of Story \<Rightarrow> ''story'' | Chapter \<Rightarrow> ''chapter'' | Comment \<Rightarrow> ''comment'')"

definition no_data :: notification_data where
  "no_data = \<lparr>d_story = None, d_chapter = None, d_comment = None, d_user = None\<rparr>"

text \<open>
  \<^verbatim>\<open>createLikeNotification\<close>. Reading a property of \<^verbatim>\<open>null\<close> (a user, story or chapter
  that \<^verbatim>\<open>findById\<close> did not find) throws a TypeError.
\<close>

definition createLikeNotification ::
  "js_id \<Rightarrow> js_id \<Rightarrow> ltype \<Rightarrow> js_id \<Rightarrow> db \<Rightarrow> (error + notification option) \<times> db" where
  \<open>createLikeNotification userId targetId targetType targetOwnerId s =
     (if strict_eq userId targetOwnerId then (Inr None, s)
      else
        (case users s (toString userId) of
           None \<Rightarrow> (Inl TypeError, s)
         | Some u \<Rightarrow>
             (case targetType of
                Story \<Rightarrow>
                  (case stories s (toString targetId) of
                     None \<Rightarrow> (Inl TypeError, s)
                   | Some st \<Rightarrow>
                       (case createNotification
                          \<lparr>recipient = toString targetOwnerId, sender = Some (toString userId),
                           n_type = ''like_'' @ ltype_name targetType,
                           title = ''Story Liked'',
                           message = display_name u @ '' liked your story "'' @ s_title st @ ''"'',
                           n_data = no_data\<lparr>d_story := Some (toString targetId)\<rparr>,
                           actionUrl = Some (''/story/'' @ toString targetId)\<rparr> s
                        of (n, s') \<Rightarrow> (Inr (Some n), s')))
              | Chapter \<Rightarrow>
                  (case chapters s (toString targetId) of
                     None \<Rightarrow> (Inl TypeError, s)
                   | Some ch \<Rightarrow>
                       (case stories s (c_story ch) of
                          None \<Rightarrow> (Inl TypeError, s)
                        | Some st \<Rightarrow>
                            (case createNotification
                               \<lparr>recipient = toString targetOwnerId, sender = Some (toString userId),
                                n_type = ''like_'' @ ltype_name targetType,
                                title = ''Chapter Liked'',
                                message = display_name u @ '' liked your chapter "'' @ c_title ch @ ''"'',
                                n_data = no_data\<lparr>d_chapter := Some (toString targetId),
                                                  d_story := Some (c_story ch)\<rparr>,
                                actionUrl = Some (''/story/'' @ c_story ch @ ''/chapter/'' @ toString targetId)\<rparr> s
                             of (n, s') \<Rightarrow> (Inr (Some n), s'))))
              | Comment \<Rightarrow>
                  (case createNotification
                     \<lparr>recipient = toString targetOwnerId, sender = Some (toString userId),
                      n_type = ''like_'' @ ltype_name targetType,
                      title = ''Comment Liked'',
                      message = display_name u @ '' liked your comment'',
                      n_data = no_data\<lparr>d_comment := Some (toString targetId)\<rparr>,
                      actionUrl = None\<rparr> s
                   of (n, s') \<Rightarrow> (Inr (Some n), s')))))\<close>

section \<open>Like controller (controllers/likeController.js)\<close>

record like_request =
  req_targetType :: string
  req_targetId :: oid
  req_userId :: oid

datatype response =
    BadRequest string
  | NotFound string
  | Success string bool
  | NextError error

definition parse_ltype :: "string \<Rightarrow> ltype option" where
  "parse_ltype t =
     (if t = ''story'' then Some Story
      else if t = ''chapter'' then Some Chapter
      else if t = ''comment'' then Some Comment
      else None)"

text \<open>
  The \<^verbatim>\<open>switch\<close> that loads the target and its owner. \<open>Inr None\<close>: no target
  (\<^verbatim>\<open>target\<close> is \<^verbatim>\<open>null\<close>); a populated reference that is \<^verbatim>\<open>null\<close> throws when its
  \<^verbatim>\<open>_id\<close> is read.
\<close>

definition find_target_owner :: "ltype \<Rightarrow> oid \<Rightarrow> db \<Rightarrow> error + oid option" where
  "find_target_owner ty tid s =
     (case ty of
        Story \<Rightarrow>
          (case stories s tid of
             None \<Rightarrow> Inr None
           | Some st \<Rightarrow> (case users s (author st) of None \<Rightarrow> Inl TypeError | Some _ \<Rightarrow> Inr (Some (author st))))
      | Chapter \<Rightarrow>
          (case chapters s tid of
             None \<Rightarrow> Inr None
           | Some ch \<Rightarrow>
               (case stories s (c_story ch) of
                  None \<Rightarrow> Inl TypeError
                | Some st \<Rightarrow> (case users s (author st) of None \<Rightarrow> Inl TypeError | Some _ \<Rightarrow> Inr (Some (author st)))))
      | Comment \<Rightarrow>
          (case find (\<lambda>c. cm_id c = tid) (comments s) of
             None \<Rightarrow> Inr None
           | Some c \<Rightarrow> (case users s (cm_user c) of None \<Rightarrow> Inl TypeError | Some _ \<Rightarrow> Inr (Some (cm_user c)))))"

text \<open>
  The controller from the result of \<^verbatim>\<open>Like.toggleLike\<close> on: the notification guard, the
  JSON answer, and the \<^verbatim>\<open>catch\<close> that hands any error to \<^verbatim>\<open>next\<close>. \<^verbatim>\<open>req.userId\<close>
  and the route parameters are strings; the owner id read from the loaded document is an
  ObjectId object (its address plays no role: it is only compared with strings).
\<close>

definition toggleLike_respond ::
  "(error + like_result) \<times> db \<Rightarrow> like_request \<Rightarrow> ltype \<Rightarrow> oid \<Rightarrow> response \<times> db" where
  "toggleLike_respond outcome req ty targetOwnerId =
     (case outcome of
        (Inl e, s') \<Rightarrow> (NextError e, s')
      | (Inr result, s') \<Rightarrow>
          if liked result \<and> \<not> strict_eq (IdString targetOwnerId) (IdString (req_userId req))
          then (case createLikeNotification (IdString (req_userId req)) (IdString (req_targetId req)) ty
                       (IdObject 0 targetOwnerId) s' of
                  (Inl e, s'') \<Rightarrow> (NextError e, s'')
                | (Inr _, s'') \<Rightarrow> (Success (lr_message result) (liked result), s''))
          else (Success (lr_message result) (liked result), s'))"

definition toggleLike_controller :: "oid \<Rightarrow> like_request \<Rightarrow> db \<Rightarrow> response \<times> db" where
  "toggleLike_controller fresh req s =
     (case parse_ltype (req_targetType req) of
        None \<Rightarrow> (BadRequest ''Invalid target type. Must be story, chapter, or comment'', s)
      | Some ty \<Rightarrow>
          (case find_target_owner ty (req_targetId req) s of
             Inl e \<Rightarrow> (NextError e, s)
           | Inr None \<Rightarrow> (NotFound (req_targetType req @ '' not found''), s)
           | Inr (Some targetOwnerId) \<Rightarrow>
               toggleLike_respond
                 (toggleLike fresh (IdString (req_userId req)) (IdString (req_targetId req)) ty s)
                 req ty targetOwnerId))"

definition checkLikeStatus :: "like_request \<Rightarrow> db \<Rightarrow> response" where
  "checkLikeStatus req s =
     (case parse_ltype (req_targetType req) of
        None \<Rightarrow> BadRequest ''Invalid target type''
      | Some ty \<Rightarrow> Success [] (isLikedBy (IdString (req_userId req)) (IdString (req_targetId req)) ty s))"

section \<open>Follow model (models/Follow.js)\<close>

text \<open>\<^verbatim>\<open>$addToSet\<close> and \<^verbatim>\<open>$pull\<close> on an array field; \<^verbatim>\<open>User.findByIdAndUpdate\<close>.\<close>

definition addToSet :: "'a \<Rightarrow> 'a list \<Rightarrow> 'a list" where
  "addToSet x xs = (if x \<in> set xs then xs else xs @ [x])"

definition pull :: "'a \<Rightarrow> 'a list \<Rightarrow> 'a list" where
  "pull x xs = filter (\<lambda>y. y \<noteq> x) xs"

definition update_user :: "oid \<Rightarrow> (user_doc \<Rightarrow> user_doc) \<Rightarrow> db \<Rightarrow> db" where
  "update_user uid g s =
     (case users s uid of None \<Rightarrow> s | Some u \<Rightarrow> s\<lparr>users := (users s)(uid \<mapsto> g u)\<rparr>)"

text \<open>\<^verbatim>\<open>followSchema.pre('save')\<close> compares the two ids by their \<^verbatim>\<open>toString()\<close>.\<close>

definition follow_pre_save :: "follow \<Rightarrow> error + follow" where
  "follow_pre_save f = (if follower f = following f then Inl SelfFollowError else Inr f)"

definition follow_post_save :: "follow \<Rightarrow> db \<Rightarrow> db" where
  "follow_post_save f s =
     (if isActive f
      then update_user (following f)
             (\<lambda>u. u\<lparr>followersCount := followersCount u + 1,
                    u_followers := addToSet (follower f) (u_followers u)\<rparr>)
             (update_user (follower f)
                (\<lambda>u. u\<lparr>followingCount := followingCount u + 1,
                       u_following := addToSet (following f) (u_following u)\<rparr>) s)
      else s)"

definition follow_post_remove :: "follow \<Rightarrow> db \<Rightarrow> db" where
  "follow_post_remove f s =
     update_user (following f)
       (\<lambda>u. u\<lparr>followersCount := followersCount u + (- 1),
              u_followers := pull (follower f) (u_followers u)\<rparr>)
       (update_user (follower f)
          (\<lambda>u. u\<lparr>followingCount := followingCount u + (- 1),
                 u_following := pull (following f) (u_following u)\<rparr>) s)"

text \<open>The unique index on (follower, following).\<close>

definition follow_duplicate :: "follow \<Rightarrow> follow list \<Rightarrow> bool" where
  "follow_duplicate f fs = list_ex (\<lambda>f'. follower f' = follower f \<and> following f' = following f) fs"

definition follow_save :: "follow \<Rightarrow> db \<Rightarrow> (error + unit) \<times> db" where
  "follow_save f s =
     (case follow_pre_save f of
        Inl e \<Rightarrow> (Inl e, s)
      | Inr f' \<Rightarrow>
          if follow_duplicate f' (follows s) then (Inl DuplicateKey, s)
          else (Inr (), follow_post_save f' (s\<lparr>follows := follows s @ [f']\<rparr>)))"

definition follow_remove :: "follow \<Rightarrow> db \<Rightarrow> db" where
  "follow_remove f s = follow_post_remove f (s\<lparr>follows := filter (\<lambda>x. f_id x \<noteq> f_id f) (follows s)\<rparr>)"

definition follow_query :: "js_id \<Rightarrow> js_id \<Rightarrow> follow \<Rightarrow> bool" where
  "follow_query followerId followingId f \<longleftrightarrow>
     follower f = toString followerId \<and> following f = toString followingId"

text \<open>\<^verbatim>\<open>new this({ follower, following })\<close>: \<^verbatim>\<open>isActive\<close> takes its default, the time stamp
  is the time of the call.\<close>

definition new_follow :: "oid \<Rightarrow> nat \<Rightarrow> js_id \<Rightarrow> js_id \<Rightarrow> follow" where
  "new_follow fresh now followerId followingId =
     \<lparr>f_id = fresh, follower = toString followerId, following = toString followingId,
      isActive = True, f_createdAt = now\<rparr>"

record follow_result =
  fr_following :: bool
  fr_message :: string

definition toggleFollow_from ::
  "follow option \<Rightarrow> oid \<Rightarrow> nat \<Rightarrow> js_id \<Rightarrow> js_id \<Rightarrow> db \<Rightarrow> (error + follow_result) \<times> db" where
  "toggleFollow_from existingFollow fresh now followerId followingId s =
     (case existingFollow of
        Some f \<Rightarrow> (Inr \<lparr>fr_following = False, fr_message = ''Unfollowed successfully''\<rparr>, follow_remove f s)
      | None \<Rightarrow>
          (case follow_save (new_follow fresh now followerId followingId) s of
             (Inl e, s') \<Rightarrow> (Inl e, s')
           | (Inr _, s') \<Rightarrow> (Inr \<lparr>fr_following = True, fr_message = ''Followed successfully''\<rparr>, s')))"

definition toggleFollow ::
  "oid \<Rightarrow> nat \<Rightarrow> js_id \<Rightarrow> js_id \<Rightarrow> db \<Rightarrow> (error + follow_result) \<times> db" where
  "toggleFollow fresh now followerId followingId s =
     (if strict_eq followerId followingId then (Inl SelfFollowError, s)
      else toggleFollow_from (find (follow_query followerId followingId) (follows s))
             fresh now followerId followingId s)"

text \<open>Queries: filter, \<^verbatim>\<open>sort({ createdAt: -1 })\<close> or \<^verbatim>\<open>1\<close>, \<^verbatim>\<open>skip\<close>, \<^verbatim>\<open>limit\<close>
  (a limit of 0 is no limit).\<close>

definition sort_asc :: "('a \<Rightarrow> nat) \<Rightarrow> 'a list \<Rightarrow> 'a list" where
  "sort_asc key xs = sort_key key xs"

definition sort_desc :: "('a \<Rightarrow> nat) \<Rightarrow> 'a list \<Rightarrow> 'a list" where
  "sort_desc key xs = sort_key (\<lambda>x. - int (key x)) xs"

definition paginate :: "nat \<Rightarrow> nat \<Rightarrow> 'a list \<Rightarrow> 'a list" where
  "paginate limit skip xs = (if limit = 0 then drop skip xs else take limit (drop skip xs))"

definition find_follows :: "(follow \<Rightarrow> bool) \<Rightarrow> nat \<Rightarrow> nat \<Rightarrow> db \<Rightarrow> follow list" where
  "find_follows q limit skip s = paginate limit skip (sort_desc f_createdAt (filter q (follows s)))"

definition exists_follow :: "(follow \<Rightarrow> bool) \<Rightarrow> db \<Rightarrow> bool" where
  "exists_follow q s = list_ex q (follows s)"

definition isFollowing :: "js_id \<Rightarrow> js_id \<Rightarrow> db \<Rightarrow> bool" where
  "isFollowing followerId followingId s =
     exists_follow (\<lambda>f. follower f = toString followerId \<and> following f = toString followingId \<and> isActive f) s"

definition getFollowers :: "js_id \<Rightarrow> nat \<Rightarrow> nat \<Rightarrow> db \<Rightarrow> follow list" where
  "getFollowers userId limit skip s =
     find_follows (\<lambda>f. following f = toString userId \<and> isActive f) limit skip s"

definition getFollowing :: "js_id \<Rightarrow> nat \<Rightarrow> nat \<Rightarrow> db \<Rightarrow> follow list" where
  "getFollowing userId limit skip s =
     find_follows (\<lambda>f. follower f = toString userId \<and> isActive f) limit skip s"

text \<open>
  The states the Follow collection can reach: it starts empty, \<^verbatim>\<open>toggleFollow\<close> is its only
  writer (also when its write meets a database that changed since its lookup), and every
  other operation leaves the collection as it is.
\<close>

inductive reachable :: "db \<Rightarrow> bool" where
  init: "follows s = [] \<Longrightarrow> reachable s"
| toggle: "reachable s \<Longrightarrow> reachable (snd (toggleFollow fresh now followerId followingId s))"
| toggle_late: "reachable s \<Longrightarrow> reachable (snd (toggleFollow_from existingFollow fresh now followerId followingId s))"
| other: "reachable s \<Longrightarrow> follows s' = follows s \<Longrightarrow> reachable s'"

section \<open>New-chapter fan-out (models/Notification.js)\<close>

function show_nat :: "nat \<Rightarrow> string" where
  "show_nat n =
     (if n < 10 then [char_of (48 + n)]
      else show_nat (n div 10) @ [char_of (48 + n mod 10)])"
  by pat_completeness auto
termination
  by (relation "measure id") auto

text \<open>\<^verbatim>\<open>insertMany\<close>: one insert operation for the whole array; an empty array is not sent.\<close>

definition insertMany :: "notification list \<Rightarrow> db \<Rightarrow> db" where
  "insertMany ns s = (if ns = [] then s else s\<lparr>notification_inserts := notification_inserts s @ [ns]\<rparr>)"

definition chapter_notification ::
  "js_id \<Rightarrow> js_id \<Rightarrow> js_id \<Rightarrow> user_doc \<Rightarrow> story_doc \<Rightarrow> chapter_doc \<Rightarrow> follow \<Rightarrow> notification" where
  \<open>chapter_notification authorId storyId chapterId au st ch fol =
     \<lparr>recipient = follower fol, sender = Some (toString authorId),
      n_type = ''new_chapter'',
      title = ''New Chapter'',
      message = display_name au @ '' published Chapter '' @ show_nat (chapterNumber ch) @
                '': "'' @ c_title ch @ ''" in "'' @ s_title st @ ''"'',
      n_data = \<lparr>d_story = Some (toString storyId), d_chapter = Some (toString chapterId),
                d_comment = None, d_user = Some (toString authorId)\<rparr>,
      actionUrl = Some (''/story/'' @ toString storyId @ ''/chapter/'' @ toString chapterId)\<rparr>\<close>

text \<open>
  \<^verbatim>\<open>createNewChapterNotification\<close>. The callback of \<^verbatim>\<open>followers.map\<close> reads the author,
  the chapter and the story, so a missing one throws as soon as there is a follower.
\<close>

definition createNewChapterNotification ::
  "js_id \<Rightarrow> js_id \<Rightarrow> js_id \<Rightarrow> db \<Rightarrow> (error + notification list) \<times> db" where
  "createNewChapterNotification authorId storyId chapterId s =
     (let followers = filter (\<lambda>f. following f = toString authorId) (follows s) in
      if followers = [] then (Inr [], insertMany [] s)
      else
        (case (users s (toString authorId), stories s (toString storyId), chapters s (toString chapterId)) of
           (Some au, Some st, Some ch) \<Rightarrow>
             (let notifications = map (chapter_notification authorId storyId chapterId au st ch) followers
              in (Inr notifications, insertMany notifications s))
         | _ \<Rightarrow> (Inl TypeError, s)))"

section \<open>Rating aggregation (models/Story.js, models/Rating.js)\<close>

text \<open>
  A rating value is an integer: the request validator \<^verbatim>\<open>validateRating\<close> admits only
  \<^verbatim>\<open>isInt({ min: 1, max: 5 })\<close>. The source computes in doubles. On integer values the sum
  is exact, and \<^verbatim>\<open>Math.round((sum / n) * 10)\<close> is the integer nearest to the exact
  \<open>10 * sum / n\<close>, a half upwards, for every number \<open>n\<close> of ratings below a billion:
  the quotient and the product are each rounded once, with a relative error of at most
  \<open>2 ^ -53\<close>, while an exact \<open>10 * sum / n\<close> that is not a half-integer is at least
  \<open>1 / (2 * n)\<close> away from one, and each of the 40 half-integers between 10 and 50 is
  computed exactly. The arithmetic is therefore written with exact rationals; the number
  stored is the double nearest to the tenth the model writes. Non-integer values, which the
  schema alone would admit, are outside the model.
\<close>

definition Math_round :: "rat \<Rightarrow> int" where
  "Math_round x = \<lfloor>x + 1 / 2\<rfloor>"

text \<open>\<^verbatim>\<open>story.save()\<close> with the schema's bounds on \<^verbatim>\<open>averageRating\<close> (min 0, max 5).\<close>

definition story_save :: "oid \<Rightarrow> story_doc \<Rightarrow> db \<Rightarrow> (error + unit) \<times> db" where
  "story_save sid st s =
     (if averageRating st < 0 \<or> 5 < averageRating st then (Inl ValidationError, s)
      else (Inr (), s\<lparr>stories := (stories s)(sid \<mapsto> st)\<rparr>))"

definition calculateAverageRating :: "oid \<Rightarrow> story_doc \<Rightarrow> db \<Rightarrow> (error + unit) \<times> db" where
  "calculateAverageRating sid this s =
     (let rs = filter (\<lambda>r. r_story r = sid) (ratings s) in
      if length rs = 0
      then story_save sid (this\<lparr>averageRating := 0, ratingCount := 0\<rparr>) s
      else
        (let sum = foldl (\<lambda>acc r. acc + r_value r) 0 rs in
         story_save sid
           (this\<lparr>averageRating := of_int (Math_round ((of_int sum / of_nat (length rs)) * 10)) / 10,
                 ratingCount := int (length rs)\<rparr>) s))"

text \<open>\<^verbatim>\<open>ratingSchema.post(['save', 'remove'])\<close>.\<close>

definition rating_post_hook :: "rating \<Rightarrow> db \<Rightarrow> (error + unit) \<times> db" where
  "rating_post_hook r s =
     (case stories s (r_story r) of
        None \<Rightarrow> (Inr (), s)
      | Some st \<Rightarrow> calculateAverageRating (r_story r) st s)"

text \<open>
  \<^verbatim>\<open>rating.save()\<close>: the schema's bounds on the value, the unique index on (user, story),
  then the write (an update when a row of that \<^verbatim>\<open>_id\<close> is stored, an insert otherwise) and
  the hook. \<^verbatim>\<open>rating.remove()\<close>: the delete by \<^verbatim>\<open>_id\<close> and the hook.
\<close>

definition rating_duplicate :: "rating \<Rightarrow> rating list \<Rightarrow> bool" where
  "rating_duplicate r rs =
     list_ex (\<lambda>r'. r_id r' \<noteq> r_id r \<and> r_user r' = r_user r \<and> r_story r' = r_story r) rs"

definition rating_save :: "rating \<Rightarrow> db \<Rightarrow> (error + unit) \<times> db" where
  "rating_save r s =
     (if r_value r < 1 \<or> 5 < r_value r then (Inl ValidationError, s)
      else if rating_duplicate r (ratings s) then (Inl DuplicateKey, s)
      else if list_ex (\<lambda>r'. r_id r' = r_id r) (ratings s)
      then rating_post_hook r (s\<lparr>ratings := map (\<lambda>r'. if r_id r' = r_id r then r else r') (ratings s)\<rparr>)
      else rating_post_hook r (s\<lparr>ratings := ratings s @ [r]\<rparr>))"

definition rating_remove :: "rating \<Rightarrow> db \<Rightarrow> (error + unit) \<times> db" where
  "rating_remove r s = rating_post_hook r (s\<lparr>ratings := filter (\<lambda>r'. r_id r' \<noteq> r_id r) (ratings s)\<rparr>)"

section \<open>Comment threads (models/Comment.js)\<close>

definition tombstone :: string where
  "tombstone = ''[This comment has been deleted]''"

text \<open>
  \<^verbatim>\<open>softDelete\<close> on a loaded comment: the three assignments, then \<^verbatim>\<open>save()\<close>, whose
  pre-save hook marks the comment as edited when the content changed, and whose post-save
  hook does nothing for a comment that is not new. The save writes the changed fields to
  the stored row of that \<^verbatim>\<open>_id\<close>.
\<close>

definition softDelete :: "nat \<Rightarrow> comment_doc \<Rightarrow> db \<Rightarrow> db" where
  "softDelete now this s =
     s\<lparr>comments :=
         map (\<lambda>c. if cm_id c = cm_id this
                   then c\<lparr>isDeleted := True, deletedAt := Some now, content := tombstone,
                          isEdited := (if content this \<noteq> tombstone then True else isEdited c),
                          editedAt := (if content this \<noteq> tombstone then Some now else editedAt c)\<rparr>
                   else c)
             (comments s)\<rparr>"

text \<open>\<^verbatim>\<open>decrementLikes\<close> on a loaded comment.\<close>

definition decrementLikes :: "comment_doc \<Rightarrow> db \<Rightarrow> db" where
  "decrementLikes this s =
     s\<lparr>comments :=
         map (\<lambda>c. if cm_id c = cm_id this then c\<lparr>cm_likes := max 0 (cm_likes this - 1)\<rparr> else c)
             (comments s)\<rparr>"

text \<open>
  \<^verbatim>\<open>getCommentsWithReplies\<close>. The populate of the virtual \<^verbatim>\<open>nestedReplies\<close> (the comments
  whose \<^verbatim>\<open>parentComment\<close> is the comment) matches \<^verbatim>\<open>isDeleted: false\<close>, sorts by
  \<^verbatim>\<open>createdAt\<close> ascending and limits to 5. Mongoose populates all listed comments with one
  query, whose limit is the given one times the number of listed comments, and then hands
  each comment its replies in the order found, at most the given limit of them.
\<close>

definition listed_replies :: "comment_doc list \<Rightarrow> db \<Rightarrow> comment_doc list" where
  "listed_replies docs s =
     filter (\<lambda>r. list_ex (\<lambda>c. parentComment r = Some (cm_id c)) docs \<and> isDeleted r = False)
       (comments s)"

definition populate_nestedReplies :: "comment_doc list \<Rightarrow> db \<Rightarrow> (comment_doc \<times> comment_doc list) list" where
  "populate_nestedReplies docs s =
     (let found = take (5 * length docs) (sort_asc createdAt (listed_replies docs s))
      in map (\<lambda>c. (c, take 5 (filter (\<lambda>r. parentComment r = Some (cm_id c)) found))) docs)"

definition top_level_query :: "oid \<Rightarrow> oid option \<Rightarrow> comment_doc \<Rightarrow> bool" where
  "top_level_query storyId chapterId c \<longleftrightarrow>
     cm_story c = storyId \<and> parentComment c = None \<and> isDeleted c = False \<and> cm_chapter c = chapterId"

definition getCommentsWithReplies ::
  "oid \<Rightarrow> oid option \<Rightarrow> nat \<Rightarrow> nat \<Rightarrow> db \<Rightarrow> (comment_doc \<times> comment_doc list) list" where
  "getCommentsWithReplies storyId chapterId limit skip s =
     populate_nestedReplies
       (paginate limit skip
          (sort_desc createdAt (filter (top_level_query storyId chapterId) (comments s)))) s"

text \<open>The non-deleted replies of a comment, oldest first.\<close>

definition replies_of :: "comment_doc \<Rightarrow> db \<Rightarrow> comment_doc list" where
  "replies_of c s =
     sort_asc createdAt
       (filter (\<lambda>r. parentComment r = Some (cm_id c) \<and> isDeleted r = False) (comments s))"

section \<open>A small database for concrete runs\<close>

definition mk_user :: "string \<Rightarrow> string \<Rightarrow> user_doc" where
  "mk_user uname fname =
     \<lparr>username = uname, fullName = fname, followersCount = 0, followingCount = 0,
      u_followers = [], u_following = []\<rparr>"

definition mk_comment :: "oid \<Rightarrow> oid option \<Rightarrow> nat \<Rightarrow> comment_doc" where
  "mk_comment cid parent time =
     \<lparr>cm_id = cid, content = ''hello'', cm_user = ''u3'', cm_story = ''s1'', cm_chapter = None,
      parentComment = parent, cm_likes = 0, replies = [], isEdited = False, editedAt = None,
      isDeleted = False, deletedAt = None, createdAt = time\<rparr>"

definition demo_db :: db where
  "demo_db =
     \<lparr>likes = [], follows = [], ratings = [],
      comments = [mk_comment ''k0'' None 10,
                  mk_comment ''r1'' (Some ''k0'') 11, mk_comment ''r2'' (Some ''k0'') 12,
                  mk_comment ''r3'' (Some ''k0'') 13, mk_comment ''r4'' (Some ''k0'') 14,
                  mk_comment ''r5'' (Some ''k0'') 15, mk_comment ''r6'' (Some ''k0'') 16,
                  mk_comment ''k1'' None 20],
      stories = [''s1'' \<mapsto> \<lparr>author = ''u2'', s_title = ''Dune'', totalLikes = 0, totalComments = 8,
                               averageRating = 0, ratingCount = 0\<rparr>],
      chapters = [''c1'' \<mapsto> \<lparr>c_story = ''s1'', c_title = ''One'', chapterNumber = 1, c_likes = 0,
                                commentsCount = 0\<rparr>],
      users = [''u1'' \<mapsto> mk_user ''alice'' ''Alice A'', ''u2'' \<mapsto> mk_user ''bob'' [],
               ''u3'' \<mapsto> mk_user ''carol'' ''Carol C''],
      notification_inserts = []\<rparr>"

text \<open>The database after one like of story \<open>s1\<close> by user \<open>u1\<close>.\<close>

definition liked_db :: db where
  "liked_db = snd (toggleLike ''l1'' (IdString ''u1'') (IdString ''s1'') Story demo_db)"

text \<open>
  What the Follow rows of a reachable database satisfy: every row is active, no row follows
  itself, and no pair (follower, following) is stored twice.
\<close>

definition follows_ok :: "follow list \<Rightarrow> bool" where
  "follows_ok fs \<longleftrightarrow>
     list_all (\<lambda>f. isActive f \<and> follower f \<noteq> following f) fs \<and>
     distinct (map (\<lambda>f. (follower f, following f)) fs)"

text \<open>The database after users \<open>u1\<close> and \<open>u3\<close> have followed user \<open>u2\<close>.\<close>

definition follow_db :: db where
  "follow_db =
     snd (toggleFollow ''f2'' 2 (IdString ''u3'') (IdString ''u2'')
       (snd (toggleFollow ''f1'' 1 (IdString ''u1'') (IdString ''u2'') demo_db)))"

section \<open>The rating aggregate as the specification words it\<close>

text \<open>
  Rounding to one decimal place, and the aggregate a story must carry: the number of its
  rating rows and their mean rounded to one decimal place, or 0 and 0 without rows. A story
  that is not stored carries nothing.
\<close>

definition round1 :: "rat \<Rightarrow> rat" where
  "round1 q = of_int (round (q * 10)) / 10"

definition aggregate_ok :: "oid \<Rightarrow> db \<Rightarrow> bool" where
  "aggregate_ok sid s =
     (case stories s sid of
        None \<Rightarrow> True
      | Some st \<Rightarrow>
          (let rs = filter (\<lambda>r. r_story r = sid) (ratings s); n = length rs in
           ratingCount st = int n \<and>
           averageRating st =
             (if n = 0 then 0 else round1 (of_int (sum_list (map r_value rs)) / of_nat n))))"

definition ratings_valid :: "db \<Rightarrow> bool" where
  "ratings_valid s = list_all (\<lambda>r. 1 \<le> r_value r \<and> r_value r \<le> 5) (ratings s)"

text \<open>Three users rate story \<open>s1\<close> with 5, 3 and 4.\<close>

definition mk_rating :: "oid \<Rightarrow> oid \<Rightarrow> int \<Rightarrow> rating" where
  "mk_rating rid u v = \<lparr>r_id = rid, r_user = u, r_story = ''s1'', r_value = v\<rparr>"

definition rated_db :: db where
  "rated_db =
     snd (rating_save (mk_rating ''r3'' ''u3'' 4)
       (snd (rating_save (mk_rating ''r2'' ''u2'' 3)
         (snd (rating_save (mk_rating ''r1'' ''u1'' 5) demo_db)))))"

section \<open>Properties\<close>

subsection \<open>Frame lemmas for the counter updates\<close>

lemma likes_inc_totalLikes [simp]: "likes (inc_totalLikes i d s) = likes s"
  by (simp add: inc_totalLikes_def split: option.splits)

lemma likes_inc_chapter_likes [simp]: "likes (inc_chapter_likes i d s) = likes s"
  by (simp add: inc_chapter_likes_def split: option.splits)

lemma likes_inc_comment_likes [simp]: "likes (inc_comment_likes i d s) = likes s"
  by (simp add: inc_comment_likes_def)

lemma likes_like_post_save [simp]: "likes (like_post_save l s) = likes s"
  by (simp add: like_post_save_def)

lemma likes_like_post_remove [simp]: "likes (like_post_remove l s) = likes s"
  by (simp add: like_post_remove_def)

lemma inserts_like_post_save [simp]:
  "notification_inserts (like_post_save l s) = notification_inserts s"
  by (simp add: like_post_save_def inc_totalLikes_def inc_chapter_likes_def inc_comment_likes_def
      split: option.splits)

lemma inserts_like_post_remove [simp]:
  "notification_inserts (like_post_remove l s) = notification_inserts s"
  by (simp add: like_post_remove_def inc_totalLikes_def inc_chapter_likes_def inc_comment_likes_def
      split: option.splits)

lemma users_like_post_save [simp]: "users (like_post_save l s) = users s"
  by (simp add: like_post_save_def inc_totalLikes_def inc_chapter_likes_def inc_comment_likes_def
      split: option.splits)

lemma stories_like_post_save_None:
  "stories (like_post_save l s) i = None \<longleftrightarrow> stories s i = None"
  by (simp add: like_post_save_def inc_totalLikes_def inc_chapter_likes_def inc_comment_likes_def
      split: option.splits)

lemma chapters_like_post_save_None:
  "chapters (like_post_save l s) i = None \<longleftrightarrow> chapters s i = None"
  by (simp add: like_post_save_def inc_totalLikes_def inc_chapter_likes_def inc_comment_likes_def
      split: option.splits)

lemma chapters_like_post_save_story:
  "chapters (like_post_save l s) i = Some ch \<Longrightarrow> \<exists>ch'. chapters s i = Some ch' \<and> c_story ch' = c_story ch"
  by (auto simp: like_post_save_def inc_totalLikes_def inc_chapter_likes_def inc_comment_likes_def
      split: option.splits if_splits)

subsection \<open>The branches of the toggle\<close>

lemma like_pre_save_new_like [simp]:
  "like_pre_save (new_like fresh u t ty) = Inr (new_like fresh u t ty)"
  by (cases ty) (simp_all add: like_pre_save_def new_like_def)

lemma like_query_new_like [simp]: "like_query u t ty (new_like fresh u t ty)"
  by (cases ty) (simp_all add: like_query_def new_like_def target_field_def)

lemma like_duplicate_same_key:
  "list_ex (like_query u t ty) ls \<Longrightarrow> like_duplicate (new_like fresh u t ty) ls"
  by (cases ty) (auto simp: like_duplicate_def new_like_def like_query_def target_field_def list_ex_iff)

lemma like_duplicate_no_rows:
  "\<not> list_ex (\<lambda>l. l_user l = toString u) ls \<Longrightarrow> \<not> like_duplicate (new_like fresh u t ty) ls"
  by (auto simp: like_duplicate_def new_like_def list_ex_iff)

lemma toggleLike_absent:
  assumes "\<not> isLikedBy u t ty s" and "\<not> like_duplicate (new_like fresh u t ty) (likes s)"
  shows "toggleLike fresh u t ty s =
           (Inr \<lparr>liked = True, lr_message = ''Liked successfully''\<rparr>,
            like_post_save (new_like fresh u t ty) (s\<lparr>likes := likes s @ [new_like fresh u t ty]\<rparr>))"
proof -
  from assms(1) have "find (like_query u t ty) (likes s) = None"
    by (simp add: isLikedBy_def find_None_iff list_ex_iff)
  with assms(2) show ?thesis
    by (simp add: toggleLike_def toggleLike_from_def like_save_def)
qed

lemma toggleLike_refused:
  assumes "\<not> isLikedBy u t ty s" and "like_duplicate (new_like fresh u t ty) (likes s)"
  shows "toggleLike fresh u t ty s = (Inl DuplicateKey, s)"
proof -
  from assms(1) have "find (like_query u t ty) (likes s) = None"
    by (simp add: isLikedBy_def find_None_iff list_ex_iff)
  with assms(2) show ?thesis
    by (simp add: toggleLike_def toggleLike_from_def like_save_def)
qed

lemma toggleLike_present:
  assumes "find (like_query u t ty) (likes s) = Some l"
  shows "toggleLike fresh u t ty s =
           (Inr \<lparr>liked = False, lr_message = ''Unliked successfully''\<rparr>, like_remove l s)"
  using assms by (simp add: toggleLike_def toggleLike_from_def)

lemma isLikedBy_find:
  assumes "isLikedBy u t ty s"
  obtains l where "find (like_query u t ty) (likes s) = Some l"
  using assms by (cases "find (like_query u t ty) (likes s)")
    (auto simp: isLikedBy_def find_None_iff list_ex_iff)

lemma find_append_new:
  assumes "\<not> list_ex P xs" "P x"
  shows "find P (xs @ [x]) = Some x"
  using assms by (induction xs) auto

subsection \<open>Toggling a like twice\<close>

text \<open>
  When the insert is not refused, two toggles in sequence like and then unlike, and
  \<^verbatim>\<open>isLikedBy\<close> follows; this is so for a user without any Like row.
\<close>

lemma toggleLike_twice_accepted:
  assumes "\<not> isLikedBy u t ty s" and "\<not> like_duplicate (new_like f1 u t ty) (likes s)"
  shows "(case toggleLike f1 u t ty s of (r1, s1) \<Rightarrow>
           r1 = Inr \<lparr>liked = True, lr_message = ''Liked successfully''\<rparr> \<and>
           isLikedBy u t ty s1 \<and>
           (case toggleLike f2 u t ty s1 of (r2, s2) \<Rightarrow>
              r2 = Inr \<lparr>liked = False, lr_message = ''Unliked successfully''\<rparr> \<and>
              \<not> isLikedBy u t ty s2))"
proof -
  let ?nl = "new_like f1 u t ty"
  let ?s1 = "like_post_save ?nl (s\<lparr>likes := likes s @ [?nl]\<rparr>)"
  have none: "\<not> list_ex (like_query u t ty) (likes s)"
    using assms(1) by (simp add: isLikedBy_def)
  have first: "toggleLike f1 u t ty s =
      (Inr \<lparr>liked = True, lr_message = ''Liked successfully''\<rparr>, ?s1)"
    by (rule toggleLike_absent [OF assms])
  have likes1: "likes ?s1 = likes s @ [?nl]" by simp
  have liked1: "isLikedBy u t ty ?s1"
    by (simp add: isLikedBy_def)
  have "find (like_query u t ty) (likes ?s1) = Some ?nl"
    unfolding likes1 by (rule find_append_new [OF none]) simp
  then have second: "toggleLike f2 u t ty ?s1 =
      (Inr \<lparr>liked = False, lr_message = ''Unliked successfully''\<rparr>, like_remove ?nl ?s1)"
    by (rule toggleLike_present)
  have "likes (like_remove ?nl ?s1) = filter (\<lambda>x. l_id x \<noteq> f1) (likes s)"
    by (simp add: like_remove_def new_like_def)
  then have "\<not> isLikedBy u t ty (like_remove ?nl ?s1)"
    using none by (auto simp: isLikedBy_def list_ex_iff)
  with first liked1 second show ?thesis by simp
qed

lemma liked_db_eq:
  "liked_db = demo_db\<lparr>likes := [new_like ''l1'' (IdString ''u1'') (IdString ''s1'') Story],
       stories := (stories demo_db)(''s1'' \<mapsto> \<lparr>author = ''u2'', s_title = ''Dune'', totalLikes = 1,
          totalComments = 8, averageRating = 0, ratingCount = 0\<rparr>)\<rparr>"
  by (simp add: liked_db_def toggleLike_def toggleLike_from_def like_save_def like_post_save_def
      inc_totalLikes_def like_query_def target_field_def new_like_def like_pre_save_def
      like_duplicate_def demo_db_def)

lemma likes_liked_db: "likes liked_db = [new_like ''l1'' (IdString ''u1'') (IdString ''s1'') Story]"
  by (simp add: liked_db_eq)

text \<open>
  Claim C1 against the code. User \<open>u1\<close> likes story \<open>s1\<close> and has no Like row for chapter
  \<open>c1\<close>, which is stored. The first \<^verbatim>\<open>toggleLike\<close> for the chapter does not answer
  \<^verbatim>\<open>liked: true\<close>: the new row has \<^verbatim>\<open>comment: null\<close> like the stored row of the same user,
  the unique index on (user, comment) refuses it, and the controller forwards the
  duplicate-key error. No row is written, so \<^verbatim>\<open>isLikedBy\<close> stays false.
\<close>

theorem second_like_refused:
  "likes liked_db = [new_like ''l1'' (IdString ''u1'') (IdString ''s1'') Story] \<and>
   chapters liked_db ''c1'' \<noteq> None \<and>
   \<not> isLikedBy (IdString ''u1'') (IdString ''c1'') Chapter liked_db \<and>
   toggleLike ''l2'' (IdString ''u1'') (IdString ''c1'') Chapter liked_db = (Inl DuplicateKey, liked_db) \<and>
   toggleLike_controller ''l2''
     \<lparr>req_targetType = ''chapter'', req_targetId = ''c1'', req_userId = ''u1''\<rparr> liked_db
     = (NextError DuplicateKey, liked_db)"
proof -
  have a: "\<not> isLikedBy (IdString ''u1'') (IdString ''c1'') Chapter liked_db"
    by (simp add: isLikedBy_def likes_liked_db like_query_def target_field_def new_like_def)
  have b: "like_duplicate (new_like ''l2'' (IdString ''u1'') (IdString ''c1'') Chapter) (likes liked_db)"
    by (simp add: likes_liked_db like_duplicate_def new_like_def)
  have c: "toggleLike ''l2'' (IdString ''u1'') (IdString ''c1'') Chapter liked_db = (Inl DuplicateKey, liked_db)"
    by (rule toggleLike_refused [OF a b])
  have d: "chapters liked_db ''c1'' \<noteq> None"
    by (simp add: liked_db_eq demo_db_def)
  have e: "find_target_owner Chapter ''c1'' liked_db = Inr (Some ''u2'')"
    by (simp add: find_target_owner_def liked_db_eq demo_db_def)
  have "toggleLike_controller ''l2''
     \<lparr>req_targetType = ''chapter'', req_targetId = ''c1'', req_userId = ''u1''\<rparr> liked_db
     = (NextError DuplicateKey, liked_db)"
    by (simp add: toggleLike_controller_def parse_ltype_def e c toggleLike_respond_def)
  with a c d likes_liked_db show ?thesis by blast
qed

subsection \<open>A duplicate key at the create step\<close>

text \<open>
  Claim C2, as the code has it. When the insert of the new Like row is refused by the unique
  index, \<^verbatim>\<open>toggleLike\<close> throws the duplicate-key error and writes nothing, and the
  controller's \<^verbatim>\<open>catch\<close> hands that error to \<^verbatim>\<open>next\<close>: no success answer with
  \<^verbatim>\<open>liked: true\<close> is produced.
\<close>

theorem toggleLike_duplicate_surfaced:
  assumes "like_duplicate (new_like fresh u t ty) (likes s)"
  shows "toggleLike_from None fresh u t ty s = (Inl DuplicateKey, s) \<and>
         toggleLike_respond (toggleLike_from None fresh u t ty s) req ty owner
           = (NextError DuplicateKey, s)"
  using assms by (simp add: toggleLike_from_def like_save_def toggleLike_respond_def)

text \<open>The refused insert for user \<open>u1\<close> and story \<open>s1\<close>, already liked.\<close>

theorem toggleLike_duplicate_surfaced_witness:
  "list_ex (like_query (IdString ''u1'') (IdString ''s1'') Story) (likes liked_db) \<and>
   like_duplicate (new_like ''l2'' (IdString ''u1'') (IdString ''s1'') Story) (likes liked_db) \<and>
   toggleLike_respond
     (toggleLike_from None ''l2'' (IdString ''u1'') (IdString ''s1'') Story liked_db)
     \<lparr>req_targetType = ''story'', req_targetId = ''s1'', req_userId = ''u1''\<rparr> Story ''u2''
   = (NextError DuplicateKey, liked_db)"
proof -
  have k: "list_ex (like_query (IdString ''u1'') (IdString ''s1'') Story) (likes liked_db)"
    by (simp add: likes_liked_db)
  then have h: "like_duplicate (new_like ''l2'' (IdString ''u1'') (IdString ''s1'') Story) (likes liked_db)"
    by (rule like_duplicate_same_key)
  show ?thesis
    using k h toggleLike_duplicate_surfaced [OF h,
        where req = "\<lparr>req_targetType = ''story'', req_targetId = ''s1'', req_userId = ''u1''\<rparr>"
          and owner = "''u2''"]
    by blast
qed

text \<open>
  Against claim C2 as stated: a request looks the row up before a concurrent like of the same
  user and story is stored, and creates after it. The toggle does not answer
  \<^verbatim>\<open>liked: true\<close>; the controller forwards the duplicate-key error.
\<close>

theorem toggleLike_duplicate_counterexample:
  "find (like_query (IdString ''u1'') (IdString ''s1'') Story) (likes demo_db) = None \<and>
   list_ex (like_query (IdString ''u1'') (IdString ''s1'') Story) (likes liked_db) \<and>
   fst (toggleLike_from (find (like_query (IdString ''u1'') (IdString ''s1'') Story) (likes demo_db))
          ''l2'' (IdString ''u1'') (IdString ''s1'') Story liked_db)
     \<noteq> Inr \<lparr>liked = True, lr_message = ''Liked successfully''\<rparr> \<and>
   fst (toggleLike_respond
     (toggleLike_from (find (like_query (IdString ''u1'') (IdString ''s1'') Story) (likes demo_db))
        ''l2'' (IdString ''u1'') (IdString ''s1'') Story liked_db)
     \<lparr>req_targetType = ''story'', req_targetId = ''s1'', req_userId = ''u1''\<rparr> Story ''u2'')
   = NextError DuplicateKey"
proof -
  have k: "list_ex (like_query (IdString ''u1'') (IdString ''s1'') Story) (likes liked_db)"
    by (simp add: likes_liked_db)
  from like_duplicate_same_key [OF k, of "''l2''"] k show ?thesis
    by (simp add: toggleLike_from_def like_save_def toggleLike_respond_def demo_db_def)
qed

subsection \<open>Like notifications\<close>

lemma chapters_like_post_save_keep:
  "chapters s i = Some ch \<Longrightarrow>
   \<exists>ch'. chapters (like_post_save l s) i = Some ch' \<and> c_story ch' = c_story ch"
  by (auto simp: like_post_save_def inc_totalLikes_def inc_chapter_likes_def inc_comment_likes_def
      split: option.splits if_splits)

lemma inserts_like_remove [simp]:
  "notification_inserts (like_remove l s) = notification_inserts s"
  by (simp add: like_remove_def)

lemma createLikeNotification_sent:
  assumes "\<not> strict_eq u ow"
      and "users s (toString u) \<noteq> None"
      and "ty = Story \<Longrightarrow> stories s (toString t) \<noteq> None"
      and "ty = Chapter \<Longrightarrow> \<exists>ch. chapters s (toString t) = Some ch \<and> stories s (c_story ch) \<noteq> None"
  shows "\<exists>n. createLikeNotification u t ty ow s =
               (Inr (Some n), s\<lparr>notification_inserts := notification_inserts s @ [[n]]\<rparr>) \<and>
             recipient n = toString ow \<and> sender n = Some (toString u)"
  using assms
  by (cases ty) (auto simp: createLikeNotification_def createNotification_def split: option.splits)

lemma find_target_owner_Story:
  "find_target_owner Story tid s = Inr (Some ow) \<Longrightarrow> stories s tid \<noteq> None"
  by (auto simp: find_target_owner_def split: option.splits)

lemma find_target_owner_Chapter:
  "find_target_owner Chapter tid s = Inr (Some ow) \<Longrightarrow>
   \<exists>ch. chapters s tid = Some ch \<and> stories s (c_story ch) \<noteq> None"
  by (auto simp: find_target_owner_def split: option.splits)

text \<open>
  Claim C9. For a like request on an existing target whose owner can be loaded, sent by an
  existing user: when the user already likes the target the toggle unlikes and no
  notification is inserted; when the insert of the new row is refused nothing is inserted
  either; otherwise the toggle likes, and exactly one notification is inserted, addressed to
  the owner and sent by the actor, unless the actor is the owner, in which case none is
  inserted.
\<close>

theorem like_notification:
  assumes ty: "parse_ltype (req_targetType req) = Some ty"
      and owner: "find_target_owner ty (req_targetId req) s = Inr (Some ow)"
      and actor: "users s (req_userId req) \<noteq> None"
  shows "case toggleLike_controller fresh req s of (res, s') \<Rightarrow>
     (if isLikedBy (IdString (req_userId req)) (IdString (req_targetId req)) ty s
      then res = Success ''Unliked successfully'' False \<and>
           notification_inserts s' = notification_inserts s
      else if like_duplicate (new_like fresh (IdString (req_userId req)) (IdString (req_targetId req)) ty)
                (likes s)
      then res = NextError DuplicateKey \<and> notification_inserts s' = notification_inserts s
      else res = Success ''Liked successfully'' True \<and>
           (if ow = req_userId req
            then notification_inserts s' = notification_inserts s
            else \<exists>n. notification_inserts s' = notification_inserts s @ [[n]] \<and>
                     recipient n = ow \<and> sender n = Some (req_userId req)))"
proof -
  let ?u = "IdString (req_userId req)" and ?t = "IdString (req_targetId req)"
  have ctl: "toggleLike_controller fresh req s =
      toggleLike_respond (toggleLike fresh ?u ?t ty s) req ty ow"
    by (simp add: toggleLike_controller_def ty owner)
  show ?thesis
  proof (cases "isLikedBy ?u ?t ty s")
    case True
    then obtain l where "find (like_query ?u ?t ty) (likes s) = Some l"
      by (rule isLikedBy_find)
    then have "toggleLike fresh ?u ?t ty s =
        (Inr \<lparr>liked = False, lr_message = ''Unliked successfully''\<rparr>, like_remove l s)"
      by (rule toggleLike_present)
    with True ctl show ?thesis
      by (simp add: toggleLike_respond_def)
  next
    case False
    let ?nl = "new_like fresh ?u ?t ty"
    show ?thesis
    proof (cases "like_duplicate ?nl (likes s)")
      case True
      from toggleLike_refused [OF False True] False True ctl show ?thesis
        by (simp add: toggleLike_respond_def)
    next
      case accepted: False
      let ?s1 = "like_post_save ?nl (s\<lparr>likes := likes s @ [?nl]\<rparr>)"
      have tog: "toggleLike fresh ?u ?t ty s =
          (Inr \<lparr>liked = True, lr_message = ''Liked successfully''\<rparr>, ?s1)"
        by (rule toggleLike_absent [OF False accepted])
      have ins1: "notification_inserts ?s1 = notification_inserts s" by simp
      show ?thesis
      proof (cases "ow = req_userId req")
        case True
        with False accepted ctl tog ins1 show ?thesis
          by (simp add: toggleLike_respond_def)
      next
        case ne: False
        have a1: "\<not> strict_eq ?u (IdObject 0 ow)" by simp
        have a2: "users ?s1 (toString ?u) \<noteq> None" using actor by simp
        have a3: "stories ?s1 (toString ?t) \<noteq> None" if "ty = Story"
          using find_target_owner_Story [of "req_targetId req" s ow] owner that
          by (simp add: stories_like_post_save_None)
        have a4: "\<exists>ch. chapters ?s1 (toString ?t) = Some ch \<and> stories ?s1 (c_story ch) \<noteq> None"
          if "ty = Chapter"
        proof -
          from find_target_owner_Chapter [of "req_targetId req" s ow] owner that
          obtain ch where ch: "chapters s (req_targetId req) = Some ch" "stories s (c_story ch) \<noteq> None"
            by auto
          from ch(1) have "chapters (s\<lparr>likes := likes s @ [?nl]\<rparr>) (req_targetId req) = Some ch"
            by simp
          from chapters_like_post_save_keep [OF this, of ?nl]
          obtain ch' where "chapters ?s1 (req_targetId req) = Some ch'" "c_story ch' = c_story ch"
            by auto
          with ch(2) show ?thesis
            by (auto simp: stories_like_post_save_None)
        qed
        from createLikeNotification_sent [OF a1 a2 a3 a4]
        obtain n where n: "createLikeNotification ?u ?t ty (IdObject 0 ow) ?s1 =
              (Inr (Some n), ?s1\<lparr>notification_inserts := notification_inserts ?s1 @ [[n]]\<rparr>)"
            "recipient n = ow" "sender n = Some (req_userId req)"
          by auto
        have "toggleLike_controller fresh req s =
            (Success ''Liked successfully'' True,
             ?s1\<lparr>notification_inserts := notification_inserts ?s1 @ [[n]]\<rparr>)"
          using ne by (simp add: ctl tog toggleLike_respond_def n(1))
        with False accepted ne n(2,3) ins1 show ?thesis
          by auto
      qed
    qed
  qed
qed

text \<open>User \<open>u1\<close> likes story \<open>s1\<close> of user \<open>u2\<close>: one notification, for \<open>u2\<close>.\<close>

theorem like_notification_witness:
  "parse_ltype (req_targetType \<lparr>req_targetType = ''story'', req_targetId = ''s1'', req_userId = ''u1''\<rparr>) = Some Story \<and>
   find_target_owner Story (req_targetId \<lparr>req_targetType = ''story'', req_targetId = ''s1'', req_userId = ''u1''\<rparr>) demo_db
     = Inr (Some ''u2'') \<and>
   users demo_db (req_userId \<lparr>req_targetType = ''story'', req_targetId = ''s1'', req_userId = ''u1''\<rparr>) \<noteq> None \<and>
   fst (toggleLike_controller ''l1'' \<lparr>req_targetType = ''story'', req_targetId = ''s1'', req_userId = ''u1''\<rparr> demo_db)
     = Success ''Liked successfully'' True \<and>
   (\<exists>n. notification_inserts
          (snd (toggleLike_controller ''l1'' \<lparr>req_targetType = ''story'', req_targetId = ''s1'', req_userId = ''u1''\<rparr> demo_db))
        = [[n]] \<and> recipient n = ''u2'')"
proof -
  let ?req = "\<lparr>req_targetType = ''story'', req_targetId = ''s1'', req_userId = ''u1''\<rparr>"
  have h1: "parse_ltype (req_targetType ?req) = Some Story"
    by (simp add: parse_ltype_def)
  have h2: "find_target_owner Story (req_targetId ?req) demo_db = Inr (Some ''u2'')"
    by (simp add: find_target_owner_def demo_db_def)
  have h3: "users demo_db (req_userId ?req) \<noteq> None"
    by (simp add: demo_db_def)
  have h4: "\<not> isLikedBy (IdString ''u1'') (IdString ''s1'') Story demo_db"
    by (simp add: isLikedBy_def demo_db_def)
  have h5: "notification_inserts demo_db = []"
    by (simp add: demo_db_def)
  have h6: "\<not> like_duplicate (new_like ''l1'' (IdString ''u1'') (IdString ''s1'') Story) (likes demo_db)"
    by (simp add: like_duplicate_def demo_db_def)
  from like_notification [OF h1 h2 h3, of "''l1''"] h4 h5 h6
  have "fst (toggleLike_controller ''l1'' ?req demo_db) = Success ''Liked successfully'' True \<and>
        (\<exists>n. notification_inserts (snd (toggleLike_controller ''l1'' ?req demo_db)) = [[n]] \<and>
              recipient n = ''u2'')"
    by (auto split: prod.splits)
  with h1 h2 h3 show ?thesis by blast
qed

subsection \<open>The Follow collection\<close>

lemma follows_update_user [simp]: "follows (update_user i g s) = follows s"
  by (simp add: update_user_def split: option.splits)

lemma follows_follow_post_save [simp]: "follows (follow_post_save f s) = follows s"
  by (simp add: follow_post_save_def)

lemma follows_follow_post_remove [simp]: "follows (follow_post_remove f s) = follows s"
  by (simp add: follow_post_remove_def)

lemma inserts_update_user [simp]:
  "notification_inserts (update_user i g s) = notification_inserts s"
  by (simp add: update_user_def split: option.splits)

lemma follows_ok_filter: "follows_ok fs \<Longrightarrow> follows_ok (filter P fs)"
  by (auto simp: follows_ok_def list_all_iff distinct_map_filter)

lemma follows_ok_snoc:
  assumes "follows_ok fs" "isActive f" "follower f \<noteq> following f" "\<not> follow_duplicate f fs"
  shows "follows_ok (fs @ [f])"
  using assms by (auto simp: follows_ok_def follow_duplicate_def list_all_iff list_ex_iff)

lemma follows_ok_toggleFollow_from:
  assumes "follows_ok (follows s)"
  shows "follows_ok (follows (snd (toggleFollow_from ex fresh now a b s)))"
proof (cases ex)
  case (Some f)
  with assms show ?thesis
    by (simp add: toggleFollow_from_def follow_remove_def follows_ok_filter)
next
  case None
  let ?f = "new_follow fresh now a b"
  show ?thesis
  proof (cases "follower ?f = following ?f \<or> follow_duplicate ?f (follows s)")
    case True
    with None assms show ?thesis
      by (auto simp: toggleFollow_from_def follow_save_def follow_pre_save_def)
  next
    case False
    then have "follows_ok (follows s @ [?f])"
      using assms by (intro follows_ok_snoc) (simp_all add: new_follow_def)
    with None False show ?thesis
      by (simp add: toggleFollow_from_def follow_save_def follow_pre_save_def)
  qed
qed

lemma follows_ok_toggleFollow:
  assumes "follows_ok (follows s)"
  shows "follows_ok (follows (snd (toggleFollow fresh now a b s)))"
  using assms by (simp add: toggleFollow_def follows_ok_toggleFollow_from)

lemma reachable_follows_ok: "reachable s \<Longrightarrow> follows_ok (follows s)"
proof (induction rule: reachable.induct)
  case (init s)
  then show ?case by (simp add: follows_ok_def)
next
  case (toggle s fresh now followerId followingId)
  then show ?case by (simp add: follows_ok_toggleFollow)
next
  case (toggle_late s existingFollow fresh now followerId followingId)
  then show ?case by (simp add: follows_ok_toggleFollow_from)
next
  case (other s s')
  then show ?case by simp
qed

text \<open>
  Claim C10. In every reachable database all Follow rows have \<^verbatim>\<open>isActive\<close> true, so
  \<^verbatim>\<open>isFollowing\<close>, \<^verbatim>\<open>getFollowers\<close> and \<^verbatim>\<open>getFollowing\<close> return what the same queries
  without the \<^verbatim>\<open>isActive: true\<close> condition return.
\<close>

theorem follow_rows_active:
  assumes "reachable s"
  shows "list_all isActive (follows s) \<and>
         isFollowing followerId followingId s
           = exists_follow (\<lambda>f. follower f = toString followerId \<and> following f = toString followingId) s \<and>
         getFollowers uid limit skip s = find_follows (\<lambda>f. following f = toString uid) limit skip s \<and>
         getFollowing uid limit skip s = find_follows (\<lambda>f. follower f = toString uid) limit skip s"
proof -
  from reachable_follows_ok [OF assms] have act: "\<forall>f\<in>set (follows s). isActive f"
    by (simp add: follows_ok_def list_all_iff)
  have filt: "filter (\<lambda>f. P f \<and> isActive f) (follows s) = filter P (follows s)" for P
    using act by (intro filter_cong) auto
  have "isFollowing followerId followingId s
      = exists_follow (\<lambda>f. follower f = toString followerId \<and> following f = toString followingId) s"
    using act by (auto simp: isFollowing_def exists_follow_def list_ex_iff)
  moreover have "getFollowers uid limit skip s = find_follows (\<lambda>f. following f = toString uid) limit skip s"
    by (simp add: getFollowers_def find_follows_def filt)
  moreover have "getFollowing uid limit skip s = find_follows (\<lambda>f. follower f = toString uid) limit skip s"
    by (simp add: getFollowing_def find_follows_def filt)
  ultimately show ?thesis using act by (simp add: list_all_iff)
qed

text \<open>
  Claim C8. \<^verbatim>\<open>toggleFollow\<close> with two ids of the same user fails with the self-follow
  error and leaves the whole database, Follow rows and user counters included, as it was:
  for ids that are \<^verbatim>\<open>===\<close> (the strings of a request) in every database, at the first
  check; for ObjectId objects of one user in every reachable database, where the lookup
  finds no row and the pre-save hook refuses the new one.
\<close>

theorem toggleFollow_self:
  assumes "strict_eq followerId followingId \<or>
           (reachable s \<and> toString followerId = toString followingId)"
  shows "toggleFollow fresh now followerId followingId s = (Inl SelfFollowError, s)"
proof (cases "strict_eq followerId followingId")
  case True
  then show ?thesis by (simp add: toggleFollow_def)
next
  case False
  with assms have r: "reachable s" and eq: "toString followerId = toString followingId"
    by blast+
  from reachable_follows_ok [OF r] have "\<forall>f\<in>set (follows s). follower f \<noteq> following f"
    by (simp add: follows_ok_def list_all_iff)
  then have "find (follow_query followerId followingId) (follows s) = None"
    using eq by (auto simp: find_None_iff follow_query_def)
  with False eq show ?thesis
    by (simp add: toggleFollow_def toggleFollow_from_def follow_save_def follow_pre_save_def
        new_follow_def)
qed

lemma reachable_follow_db: "reachable follow_db"
  unfolding follow_db_def
  by (intro reachable.toggle reachable.init) (simp add: demo_db_def)

lemma follows_follow_db:
  "follows follow_db =
     [new_follow ''f1'' 1 (IdString ''u1'') (IdString ''u2''),
      new_follow ''f2'' 2 (IdString ''u3'') (IdString ''u2'')]"
  by (simp add: follow_db_def toggleFollow_def toggleFollow_from_def follow_save_def
      follow_pre_save_def follow_duplicate_def follow_query_def new_follow_def demo_db_def)

text \<open>
  The database with two follows of user \<open>u2\<close>.
\<close>

theorem follow_rows_active_witness:
  "reachable follow_db \<and> list_all isActive (follows follow_db) \<and>
   isFollowing (IdString ''u1'') (IdString ''u2'') follow_db \<and>
   getFollowers (IdString ''u2'') 20 0 follow_db
     = find_follows (\<lambda>f. following f = ''u2'') 20 0 follow_db"
proof -
  have "isFollowing (IdString ''u1'') (IdString ''u2'') follow_db"
    by (simp add: isFollowing_def exists_follow_def follows_follow_db new_follow_def)
  with reachable_follow_db
    follow_rows_active [OF reachable_follow_db, of "IdString ''u1''" "IdString ''u2''" "IdString ''u2''" 20 0]
  show ?thesis by simp
qed

text \<open>
  Two distinct ObjectId objects of user \<open>u1\<close>: the first check lets them through and the
  pre-save hook refuses the row.
\<close>

theorem toggleFollow_self_witness:
  "reachable follow_db \<and> toString (IdObject 1 ''u1'') = toString (IdObject 2 ''u1'') \<and>
   \<not> strict_eq (IdObject 1 ''u1'') (IdObject 2 ''u1'') \<and>
   toggleFollow ''f9'' 9 (IdObject 1 ''u1'') (IdObject 2 ''u1'') follow_db = (Inl SelfFollowError, follow_db) \<and>
   strict_eq (IdString ''u1'') (IdString ''u1'') \<and>
   toggleFollow ''f9'' 9 (IdString ''u1'') (IdString ''u1'') follow_db = (Inl SelfFollowError, follow_db)"
proof -
  have h: "reachable follow_db \<and> toString (IdObject 1 ''u1'') = toString (IdObject 2 ''u1'')"
    using reachable_follow_db by simp
  have g: "strict_eq (IdString ''u1'') (IdString ''u1'')" by simp
  have n: "\<not> strict_eq (IdObject 1 ''u1'') (IdObject 2 ''u1'')" by simp
  from toggleFollow_self [OF disjI2 [OF h], of "''f9''" 9]
    toggleFollow_self [OF disjI1 [OF g], of "''f9''" 9 follow_db] h g n
  show ?thesis by blast
qed

subsection \<open>The new-chapter fan-out\<close>

lemma recipient_chapter_notification [simp]:
  "recipient (chapter_notification a sid cid au st ch f) = follower f"
  by (simp add: chapter_notification_def)

lemma all_notifications_insertMany [simp]:
  "all_notifications (insertMany ns s) = all_notifications s @ ns"
  by (simp add: all_notifications_def insertMany_def)

lemma distinct_followers_of:
  assumes "distinct (map (\<lambda>f. (follower f, following f)) fs)"
  shows "distinct (map follower (filter (\<lambda>f. following f = a) fs))"
proof -
  let ?P = "\<lambda>f. following f = a"
  from assms have d: "distinct (map (\<lambda>f. (follower f, following f)) (filter ?P fs))"
    by (rule distinct_map_filter)
  then have "distinct (filter ?P fs)" and inj: "inj_on (\<lambda>f. (follower f, following f)) (set (filter ?P fs))"
    by (simp_all add: distinct_map)
  moreover have "inj_on follower (set (filter ?P fs))"
  proof (rule inj_onI)
    fix x y assume "x \<in> set (filter ?P fs)" "y \<in> set (filter ?P fs)" "follower x = follower y"
    then show "x = y" using inj by (auto dest: inj_onD)
  qed
  ultimately show ?thesis by (simp add: distinct_map)
qed

lemma getFollowers_all:
  "set (getFollowers a 0 0 s) = set (filter (\<lambda>f. following f = toString a \<and> isActive f) (follows s))"
  "length (getFollowers a 0 0 s) = length (filter (\<lambda>f. following f = toString a \<and> isActive f) (follows s))"
  by (simp_all add: getFollowers_def find_follows_def paginate_def sort_desc_def)

text \<open>
  Claim C5. In a reachable database with the author, the story and the chapter stored,
  \<^verbatim>\<open>createNewChapterNotification\<close> succeeds; the notifications it adds are as many as the
  author has active followers, their recipients are exactly these followers, each once, and
  never the author; they are written by one insert operation, and nothing is written when
  there is no follower.
\<close>

theorem chapter_fanout:
  assumes "reachable s"
      and "users s (toString authorId) \<noteq> None"
      and "stories s (toString storyId) \<noteq> None"
      and "chapters s (toString chapterId) \<noteq> None"
  shows "case createNewChapterNotification authorId storyId chapterId s of (res, s') \<Rightarrow>
           \<exists>ns. res = Inr ns \<and>
             all_notifications s' = all_notifications s @ ns \<and>
             notification_inserts s' = notification_inserts s @ (if ns = [] then [] else [ns]) \<and>
             length ns = length (getFollowers authorId 0 0 s) \<and>
             set (map recipient ns) = follower ` set (getFollowers authorId 0 0 s) \<and>
             distinct (map recipient ns) \<and>
             toString authorId \<notin> set (map recipient ns)"
proof -
  let ?a = "toString authorId"
  let ?fs = "filter (\<lambda>f. following f = ?a) (follows s)"
  from assms(2-4) obtain au st ch where ex:
    "users s ?a = Some au" "stories s (toString storyId) = Some st"
    "chapters s (toString chapterId) = Some ch"
    by auto
  let ?ns = "map (chapter_notification authorId storyId chapterId au st ch) ?fs"
  have run: "createNewChapterNotification authorId storyId chapterId s = (Inr ?ns, insertMany ?ns s)"
    by (simp add: createNewChapterNotification_def ex Let_def)
  have ok: "follows_ok (follows s)" by (rule reachable_follows_ok [OF assms(1)])
  then have act: "\<forall>f\<in>set (follows s). isActive f \<and> follower f \<noteq> following f"
    by (simp add: follows_ok_def list_all_iff)
  have fs: "filter (\<lambda>f. following f = ?a \<and> isActive f) (follows s) = ?fs"
    using act by (intro filter_cong) auto
  have rec: "map recipient ?ns = map follower ?fs"
    by (simp add: comp_def)
  have "distinct (map follower ?fs)"
    using ok by (intro distinct_followers_of) (simp add: follows_ok_def)
  moreover have "?a \<notin> set (map follower ?fs)"
    using act by auto
  moreover have "length ?ns = length (getFollowers authorId 0 0 s)"
    by (simp add: getFollowers_all fs)
  moreover have "set (map recipient ?ns) = follower ` set (getFollowers authorId 0 0 s)"
    unfolding rec by (simp add: getFollowers_all(1) fs)
  moreover have "notification_inserts (insertMany ?ns s)
      = notification_inserts s @ (if ?ns = [] then [] else [?ns])"
    by (simp add: insertMany_def)
  ultimately show ?thesis
    unfolding run rec [symmetric] by (simp del: map_map set_map)
qed

text \<open>
  Author \<open>u2\<close> with the two followers \<open>u1\<close> and \<open>u3\<close>: one batch of two.
\<close>

theorem chapter_fanout_witness:
  "reachable follow_db \<and> users follow_db (toString (IdString ''u2'')) \<noteq> None \<and>
   stories follow_db (toString (IdString ''s1'')) \<noteq> None \<and>
   chapters follow_db (toString (IdString ''c1'')) \<noteq> None \<and>
   length (getFollowers (IdString ''u2'') 0 0 follow_db) = 2 \<and>
   (\<exists>ns. fst (createNewChapterNotification (IdString ''u2'') (IdString ''s1'') (IdString ''c1'') follow_db)
            = Inr ns \<and> length ns = 2 \<and>
          notification_inserts
            (snd (createNewChapterNotification (IdString ''u2'') (IdString ''s1'') (IdString ''c1'') follow_db))
            = notification_inserts follow_db @ [ns])"
proof -
  have u: "users follow_db (toString (IdString ''u2'')) \<noteq> None"
    by (simp add: follow_db_def toggleFollow_def toggleFollow_from_def follow_save_def
      follow_pre_save_def follow_duplicate_def follow_query_def new_follow_def demo_db_def
      follow_post_save_def update_user_def)
  have st: "stories follow_db (toString (IdString ''s1'')) \<noteq> None"
    by (simp add: follow_db_def toggleFollow_def toggleFollow_from_def follow_save_def
      follow_pre_save_def follow_duplicate_def follow_query_def new_follow_def demo_db_def
      follow_post_save_def update_user_def)
  have ch: "chapters follow_db (toString (IdString ''c1'')) \<noteq> None"
    by (simp add: follow_db_def toggleFollow_def toggleFollow_from_def follow_save_def
      follow_pre_save_def follow_duplicate_def follow_query_def new_follow_def demo_db_def
      follow_post_save_def update_user_def)
  have n: "length (getFollowers (IdString ''u2'') 0 0 follow_db) = 2"
    by (simp add: getFollowers_all follows_follow_db new_follow_def)
  from chapter_fanout [OF reachable_follow_db u st ch] n
  have "\<exists>ns. fst (createNewChapterNotification (IdString ''u2'') (IdString ''s1'') (IdString ''c1'') follow_db)
            = Inr ns \<and> length ns = 2 \<and>
          notification_inserts
            (snd (createNewChapterNotification (IdString ''u2'') (IdString ''s1'') (IdString ''c1'') follow_db))
            = notification_inserts follow_db @ [ns]"
    by (auto split: prod.splits if_splits)
  with reachable_follow_db u st ch n show ?thesis by blast
qed

subsection \<open>Rating aggregation\<close>

lemma floor_half: "\<lfloor>1 / 2 :: rat\<rfloor> = 0"
  by (simp add: floor_eq_iff)

lemmas rating_defs = rating_save_def rating_remove_def rating_post_hook_def
  calculateAverageRating_def story_save_def rating_duplicate_def Math_round_def mk_rating_def
  floor_eq_iff floor_half

lemma ratings_rated_db:
  "ratings rated_db = [mk_rating ''r1'' ''u1'' 5, mk_rating ''r2'' ''u2'' 3, mk_rating ''r3'' ''u3'' 4]"
  by (simp add: rated_db_def rating_defs demo_db_def Let_def)

lemma story_rated_db:
  "stories rated_db ''s1'' = Some \<lparr>author = ''u2'', s_title = ''Dune'', totalLikes = 0, totalComments = 8,
                               averageRating = 4, ratingCount = 3\<rparr>"
  by (simp add: rated_db_def rating_defs demo_db_def Let_def)

lemma story_after_remove:
  "stories (snd (rating_remove (mk_rating ''r2'' ''u2'' 3) rated_db)) ''s1''
     = Some \<lparr>author = ''u2'', s_title = ''Dune'', totalLikes = 0, totalComments = 8,
                               averageRating = 9 / 2, ratingCount = 2\<rparr>"
  by (simp add: rating_defs ratings_rated_db story_rated_db Let_def)

lemma foldl_r_value: "foldl (\<lambda>acc r. acc + r_value r) a rs = a + sum_list (map r_value rs)"
  by (induction rs arbitrary: a) simp_all

lemma sum_r_value_bounds:
  assumes "list_all (\<lambda>r. 1 \<le> r_value r \<and> r_value r \<le> 5) rs"
  shows "int (length rs) \<le> sum_list (map r_value rs) \<and>
         sum_list (map r_value rs) \<le> 5 * int (length rs)"
  using assms by (induction rs) auto

lemma round1_bounds:
  assumes "1 \<le> q" "q \<le> 5"
  shows "0 \<le> round1 q \<and> round1 q \<le> 5"
proof -
  have "round (10 :: rat) \<le> round (q * 10)"
    using assms(1) by (intro round_mono) simp
  moreover have "round (q * 10) \<le> round (50 :: rat)"
    using assms(2) by (intro round_mono) simp
  ultimately have "10 \<le> round (q * 10)" "round (q * 10) \<le> 50"
    by simp_all
  then have "(10 :: rat) \<le> of_int (round (q * 10))" "of_int (round (q * 10)) \<le> (50 :: rat)"
    by linarith+
  then show ?thesis by (simp add: round1_def)
qed

lemma mean_bounds:
  assumes "list_all (\<lambda>r. 1 \<le> r_value r \<and> r_value r \<le> 5) rs" "rs \<noteq> []"
  shows "(1 :: rat) \<le> of_int (sum_list (map r_value rs)) / of_nat (length rs) \<and>
         of_int (sum_list (map r_value rs)) / of_nat (length rs) \<le> (5 :: rat)"
proof -
  have pos: "(0 :: rat) < of_nat (length rs)" using assms(2) by simp
  from sum_r_value_bounds [OF assms(1)]
  have "(of_int (int (length rs)) :: rat) \<le> of_int (sum_list (map r_value rs))"
    and "(of_int (sum_list (map r_value rs)) :: rat) \<le> of_int (5 * int (length rs))"
    by (simp_all only: of_int_le_iff)
  with pos show ?thesis
    by (simp add: pos_le_divide_eq pos_divide_le_eq)
qed

lemma calculateAverageRating_ok:
  assumes "ratings_valid s"
  shows "fst (calculateAverageRating sid st s) = Inr () \<and>
         aggregate_ok sid (snd (calculateAverageRating sid st s)) \<and>
         ratings (snd (calculateAverageRating sid st s)) = ratings s"
proof -
  let ?rs = "filter (\<lambda>r. r_story r = sid) (ratings s)"
  show ?thesis
  proof (cases "?rs = []")
    case True
    then show ?thesis
      by (simp add: calculateAverageRating_def story_save_def aggregate_ok_def)
  next
    case False
    let ?q = "(of_int (sum_list (map r_value ?rs)) :: rat) / of_nat (length ?rs)"
    have "list_all (\<lambda>r. 1 \<le> r_value r \<and> r_value r \<le> 5) ?rs"
      using assms by (auto simp: ratings_valid_def list_all_iff)
    from mean_bounds [OF this False] have "0 \<le> round1 ?q \<and> round1 ?q \<le> 5"
      by (intro round1_bounds) simp_all
    moreover have "of_int (Math_round (?q * 10)) / 10 = round1 ?q"
      by (simp add: Math_round_def round1_def round_def)
    ultimately show ?thesis
      using False
      by (simp add: calculateAverageRating_def story_save_def aggregate_ok_def Let_def
          foldl_r_value not_less [symmetric])
  qed
qed

lemma rating_post_hook_ok:
  assumes "ratings_valid s"
  shows "fst (rating_post_hook r s) = Inr () \<and>
         aggregate_ok (r_story r) (snd (rating_post_hook r s)) \<and>
         ratings (snd (rating_post_hook r s)) = ratings s"
proof (cases "stories s (r_story r)")
  case None
  then show ?thesis by (simp add: rating_post_hook_def aggregate_ok_def)
next
  case (Some st)
  with calculateAverageRating_ok [OF assms, of "r_story r" st] show ?thesis
    by (simp add: rating_post_hook_def)
qed

lemma ratings_valid_written:
  assumes "ratings_valid s" "1 \<le> r_value r" "r_value r \<le> 5"
  shows "ratings_valid (s\<lparr>ratings := map (\<lambda>r'. if r_id r' = r_id r then r else r') (ratings s)\<rparr>)"
    and "ratings_valid (s\<lparr>ratings := ratings s @ [r]\<rparr>)"
  using assms by (auto simp: ratings_valid_def list_all_iff)

lemma ratings_valid_removed:
  assumes "ratings_valid s"
  shows "ratings_valid (s\<lparr>ratings := filter P (ratings s)\<rparr>)"
  using assms by (auto simp: ratings_valid_def list_all_iff)

lemma rating_save_ok:
  assumes "ratings_valid s" "1 \<le> r_value r" "r_value r \<le> 5" "\<not> rating_duplicate r (ratings s)"
  shows "fst (rating_save r s) = Inr () \<and> aggregate_ok (r_story r) (snd (rating_save r s)) \<and>
         ratings_valid (snd (rating_save r s))"
proof (cases "list_ex (\<lambda>r'. r_id r' = r_id r) (ratings s)")
  case True
  let ?s1 = "s\<lparr>ratings := map (\<lambda>r'. if r_id r' = r_id r then r else r') (ratings s)\<rparr>"
  have v: "ratings_valid ?s1" by (rule ratings_valid_written(1) [OF assms(1-3)])
  have "rating_save r s = rating_post_hook r ?s1"
    using assms(2-4) True by (simp add: rating_save_def not_less [symmetric])
  with rating_post_hook_ok [OF v, of r] v show ?thesis
    by (simp add: ratings_valid_def)
next
  case False
  let ?s1 = "s\<lparr>ratings := ratings s @ [r]\<rparr>"
  have v: "ratings_valid ?s1" by (rule ratings_valid_written(2) [OF assms(1-3)])
  have "rating_save r s = rating_post_hook r ?s1"
    using assms(2-4) False by (simp add: rating_save_def not_less [symmetric])
  with rating_post_hook_ok [OF v, of r] v show ?thesis
    by (simp add: ratings_valid_def)
qed

lemma rating_remove_ok:
  assumes "ratings_valid s"
  shows "fst (rating_remove r s) = Inr () \<and> aggregate_ok (r_story r) (snd (rating_remove r s)) \<and>
         ratings_valid (snd (rating_remove r s))"
proof -
  let ?s1 = "s\<lparr>ratings := filter (\<lambda>r'. r_id r' \<noteq> r_id r) (ratings s)\<rparr>"
  have v: "ratings_valid ?s1" by (rule ratings_valid_removed [OF assms])
  with rating_post_hook_ok [OF v, of r] show ?thesis
    by (simp add: rating_remove_def ratings_valid_def)
qed

text \<open>
  Claim C3. After a rating is saved (created or updated) or removed, in a database whose
  rating values are integers between 1 and 5, the write succeeds and the story, when
  stored, carries the count of its rating rows and their mean rounded to one decimal place
  (0 and 0 without rows). The ratings 5, 3 and 4 of three users give 4.0 and 3; removing
  the 3 gives 4.5 and 2.
\<close>

theorem rating_recompute:
  "(ratings_valid s \<and> 1 \<le> r_value r \<and> r_value r \<le> 5 \<and> \<not> rating_duplicate r (ratings s) \<longrightarrow>
      fst (rating_save r s) = Inr () \<and> aggregate_ok (r_story r) (snd (rating_save r s))) \<and>
   (ratings_valid s \<longrightarrow>
      fst (rating_remove r s) = Inr () \<and> aggregate_ok (r_story r) (snd (rating_remove r s))) \<and>
   map r_value (ratings rated_db) = [5, 3, 4] \<and>
   map_option (\<lambda>st. (averageRating st, ratingCount st)) (stories rated_db ''s1'') = Some (4, 3) \<and>
   map r_value (ratings (snd (rating_remove (mk_rating ''r2'' ''u2'' 3) rated_db))) = [5, 4] \<and>
   map_option (\<lambda>st. (averageRating st, ratingCount st))
     (stories (snd (rating_remove (mk_rating ''r2'' ''u2'' 3) rated_db)) ''s1'') = Some (9 / 2, 2)"
proof -
  have g1: "ratings_valid s \<and> 1 \<le> r_value r \<and> r_value r \<le> 5 \<and> \<not> rating_duplicate r (ratings s) \<longrightarrow>
      fst (rating_save r s) = Inr () \<and> aggregate_ok (r_story r) (snd (rating_save r s))"
    using rating_save_ok [of s r] by blast
  have g2: "ratings_valid s \<longrightarrow>
      fst (rating_remove r s) = Inr () \<and> aggregate_ok (r_story r) (snd (rating_remove r s))"
    using rating_remove_ok [of s r] by blast
  have e1: "map r_value (ratings rated_db) = [5, 3, 4]"
    by (simp add: ratings_rated_db mk_rating_def)
  have e2: "map_option (\<lambda>st. (averageRating st, ratingCount st)) (stories rated_db ''s1'') = Some (4, 3)"
    by (simp add: story_rated_db)
  have e3: "map r_value (ratings (snd (rating_remove (mk_rating ''r2'' ''u2'' 3) rated_db))) = [5, 4]"
    by (simp add: rating_defs ratings_rated_db story_rated_db Let_def)
  have e4: "map_option (\<lambda>st. (averageRating st, ratingCount st))
     (stories (snd (rating_remove (mk_rating ''r2'' ''u2'' 3) rated_db)) ''s1'') = Some (9 / 2, 2)"
    by (simp add: story_after_remove)
  show ?thesis
    by (intro conjI) (rule g1 g2 e1 e2 e3 e4)+
qed

text \<open>
  On the database with the ratings 5, 3, 4: the second user changes the 3 into a 2 (average
  3.7, count 3), and the removal of the 3.
\<close>

theorem rating_recompute_witness:
  "ratings_valid rated_db \<and>
   1 \<le> r_value (mk_rating ''r2'' ''u2'' 2) \<and> r_value (mk_rating ''r2'' ''u2'' 2) \<le> 5 \<and>
   \<not> rating_duplicate (mk_rating ''r2'' ''u2'' 2) (ratings rated_db) \<and>
   stories rated_db ''s1'' \<noteq> None \<and>
   fst (rating_save (mk_rating ''r2'' ''u2'' 2) rated_db) = Inr () \<and>
   aggregate_ok ''s1'' (snd (rating_save (mk_rating ''r2'' ''u2'' 2) rated_db)) \<and>
   map_option (\<lambda>st. (averageRating st, ratingCount st))
     (stories (snd (rating_save (mk_rating ''r2'' ''u2'' 2) rated_db)) ''s1'') = Some (37 / 10, 3) \<and>
   aggregate_ok ''s1'' (snd (rating_remove (mk_rating ''r2'' ''u2'' 3) rated_db))"
proof -
  let ?r = "mk_rating ''r2'' ''u2'' 2"
  have v: "ratings_valid rated_db"
    by (simp add: ratings_valid_def ratings_rated_db mk_rating_def)
  have r: "1 \<le> r_value ?r" "r_value ?r \<le> 5" by (simp_all add: mk_rating_def)
  have d: "\<not> rating_duplicate ?r (ratings rated_db)"
    by (simp add: rating_duplicate_def ratings_rated_db mk_rating_def)
  have st: "stories rated_db ''s1'' \<noteq> None" by (simp add: story_rated_db)
  have ev: "map_option (\<lambda>st. (averageRating st, ratingCount st))
     (stories (snd (rating_save ?r rated_db)) ''s1'') = Some (37 / 10, 3)"
    by (simp add: rating_defs ratings_rated_db story_rated_db Let_def)
  have s1: "r_story ?r = ''s1''" "r_story (mk_rating ''r2'' ''u2'' 3) = ''s1''"
    by (simp_all add: mk_rating_def)
  from rating_recompute [of rated_db ?r] v r d
  have "fst (rating_save ?r rated_db) = Inr () \<and> aggregate_ok ''s1'' (snd (rating_save ?r rated_db))"
    unfolding s1 by blast
  moreover from rating_recompute [of rated_db "mk_rating ''r2'' ''u2'' 3"] v
  have "aggregate_ok ''s1'' (snd (rating_remove (mk_rating ''r2'' ''u2'' 3) rated_db))"
    unfolding s1 by blast
  ultimately show ?thesis using v r d st ev by blast
qed

subsection \<open>Comment threads\<close>

lemma sorted_paginate:
  assumes "sorted (map f xs)"
  shows "sorted (map f (paginate l k xs))"
proof -
  have d: "sorted (drop k (map f xs))"
    using assms by (rule sorted_wrt_drop)
  then have "sorted (take l (drop k (map f xs)))"
    by (rule sorted_wrt_take)
  with d show ?thesis
    by (simp add: paginate_def take_map drop_map)
qed

lemma set_paginate: "set (paginate l k xs) \<subseteq> set xs"
  by (auto simp: paginate_def dest: in_set_dropD in_set_takeD)

lemma populate_nestedReplies_fst [simp]: "map fst (populate_nestedReplies docs s) = docs"
  by (simp add: populate_nestedReplies_def Let_def comp_def)

text \<open>The replies of a listed comment among the replies the populate query finds.\<close>

lemma filter_listed_replies:
  assumes "c \<in> set docs"
  shows "filter (\<lambda>r. parentComment r = Some (cm_id c)) (sort_asc createdAt (listed_replies docs s))
           = replies_of c s"
proof -
  have "filter (\<lambda>r. parentComment r = Some (cm_id c)) (listed_replies docs s)
      = filter (\<lambda>r. parentComment r = Some (cm_id c) \<and> isDeleted r = False) (comments s)"
    unfolding listed_replies_def filter_filter
    using assms by (intro filter_cong refl) (auto simp: list_ex_iff)
  then show ?thesis
    by (simp add: sort_asc_def replies_of_def filter_sort)
qed

lemma filter_take_prefix:
  "filter P (take m ys) = take (length (filter P (take m ys))) (filter P ys)"
proof -
  have "filter P ys = filter P (take m ys @ drop m ys)" by simp
  also have "\<dots> = filter P (take m ys) @ filter P (drop m ys)" by (simp only: filter_append)
  finally show ?thesis by simp
qed

lemma length_filter_take: "length (filter P (take m ys)) \<le> length (filter P ys)"
proof -
  have "filter P ys = filter P (take m ys @ drop m ys)" by simp
  also have "\<dots> = filter P (take m ys) @ filter P (drop m ys)" by (simp only: filter_append)
  finally have "length (filter P ys) = length (filter P (take m ys)) + length (filter P (drop m ys))"
    by simp
  then show ?thesis by simp
qed

lemma populate_nestedReplies_carried:
  assumes "(c, rs) \<in> set (populate_nestedReplies docs s)"
  shows "(\<exists>k\<le>5. rs = take k (replies_of c s)) \<and>
         (length (listed_replies docs s) \<le> 5 * length docs \<or>
          length (filter (\<lambda>r. parentComment r \<noteq> Some (cm_id c)) (listed_replies docs s))
            \<le> 5 * (length docs - 1)
          \<longrightarrow> rs = take 5 (replies_of c s))"
proof -
  let ?P = "\<lambda>r. parentComment r = Some (cm_id c)"
  let ?ys = "sort_asc createdAt (listed_replies docs s)"
  let ?m = "5 * length docs"
  let ?found = "take ?m ?ys"
  let ?k = "length (filter ?P ?found)"
  from assms have c: "c \<in> set docs" and rs: "rs = take 5 (filter ?P ?found)"
    by (auto simp: populate_nestedReplies_def Let_def)
  have zs: "filter ?P ?ys = replies_of c s"
    by (rule filter_listed_replies [OF c])
  have pre: "filter ?P ?found = take ?k (replies_of c s)"
    using filter_take_prefix [of ?P ?m ?ys] by (simp only: zs)
  have rs_k: "rs = take (min 5 ?k) (replies_of c s)"
    unfolding rs by (subst pre) (simp only: take_take)
  have a: "\<exists>k\<le>5. rs = take k (replies_of c s)"
  proof (intro exI conjI)
    show "min 5 ?k \<le> 5" by simp
    show "rs = take (min 5 ?k) (replies_of c s)" by (rule rs_k)
  qed
  have b: "rs = take 5 (replies_of c s)"
    if h: "length (listed_replies docs s) \<le> ?m \<or>
           length (filter (\<lambda>r. \<not> ?P r) (listed_replies docs s)) \<le> 5 * (length docs - 1)"
  proof (cases "length ?ys \<le> ?m")
    case True
    then have "?found = ?ys" by simp
    then have "filter ?P ?found = replies_of c s" by (simp only: zs)
    then show ?thesis by (simp only: rs)
  next
    case False
    then have len: "length ?found = ?m" by simp
    from False h have others: "length (filter (\<lambda>r. \<not> ?P r) (listed_replies docs s)) \<le> 5 * (length docs - 1)"
      by (simp add: sort_asc_def)
    have "length (filter (\<lambda>r. \<not> ?P r) ?found) \<le> length (filter (\<lambda>r. \<not> ?P r) ?ys)"
      by (rule length_filter_take)
    also have "\<dots> = length (filter (\<lambda>r. \<not> ?P r) (listed_replies docs s))"
      by (simp add: sort_asc_def filter_sort)
    finally have o: "length (filter (\<lambda>r. \<not> ?P r) ?found) \<le> 5 * (length docs - 1)"
      using others by simp
    have "length ?found = ?k + length (filter (\<lambda>r. \<not> ?P r) ?found)"
      by (rule sum_length_filter_compl [symmetric])
    moreover from c obtain n where "length docs = Suc n" by (cases docs) auto
    ultimately have "5 \<le> ?k" using len o by simp
    then have "min 5 ?k = 5" by simp
    with rs_k show ?thesis by simp
  qed
  from a b show ?thesis by blast
qed

lemma getCommentsWithReplies_tops:
  assumes "x \<in> set (getCommentsWithReplies storyId chapterId limit skip s)"
  shows "fst x \<in> set (comments s) \<and> top_level_query storyId chapterId (fst x)"
proof -
  let ?all = "sort_desc createdAt (filter (top_level_query storyId chapterId) (comments s))"
  from assms have "fst x \<in> set (map fst (getCommentsWithReplies storyId chapterId limit skip s))"
    by force
  then have "fst x \<in> set (paginate limit skip ?all)"
    by (simp add: getCommentsWithReplies_def)
  with set_paginate [of limit skip ?all] have "fst x \<in> set ?all" by blast
  then show ?thesis
    by (simp add: sort_desc_def)
qed

lemma getCommentsWithReplies_newest_first:
  "sorted_wrt (\<lambda>a b. createdAt (fst a) \<ge> createdAt (fst b))
     (getCommentsWithReplies storyId chapterId limit skip s)"
proof -
  let ?tops = "paginate limit skip (sort_desc createdAt (filter (top_level_query storyId chapterId) (comments s)))"
  have "sorted (map (\<lambda>c. - int (createdAt c)) ?tops)"
    by (intro sorted_paginate) (simp add: sort_desc_def)
  then have "sorted_wrt (\<lambda>a b. createdAt a \<ge> createdAt b) ?tops"
    by (simp add: sorted_map)
  then have "sorted_wrt (\<lambda>a b. createdAt a \<ge> createdAt b)
      (map fst (getCommentsWithReplies storyId chapterId limit skip s))"
    by (simp add: getCommentsWithReplies_def)
  then show ?thesis
    by (simp only: sorted_wrt_map)
qed

text \<open>
  Claim C7, as the code has it. \<^verbatim>\<open>getCommentsWithReplies\<close> lists exactly the requested page
  of the non-deleted top-level comments of the story (and chapter), newest first. Each
  listed comment carries an initial part, at most 5 long, of its non-deleted replies in
  oldest-first order; it carries the 5 oldest (all, when there are fewer) whenever the
  shared limit of the populate query does not cut them short: when the listed comments have
  together at most 5 non-deleted replies each, or the other listed comments have.
\<close>

theorem thread_listing:
  "map fst (getCommentsWithReplies storyId chapterId limit skip s)
     = paginate limit skip
         (sort_desc createdAt (filter (top_level_query storyId chapterId) (comments s))) \<and>
   sorted_wrt (\<lambda>a b. createdAt (fst a) \<ge> createdAt (fst b))
     (getCommentsWithReplies storyId chapterId limit skip s) \<and>
   (\<forall>(c, rs)\<in>set (getCommentsWithReplies storyId chapterId limit skip s).
      c \<in> set (comments s) \<and> top_level_query storyId chapterId c \<and>
      sorted (map createdAt rs) \<and>
      (\<exists>k\<le>5. rs = take k (replies_of c s)) \<and>
      (length (listed_replies (map fst (getCommentsWithReplies storyId chapterId limit skip s)) s)
         \<le> 5 * length (getCommentsWithReplies storyId chapterId limit skip s) \<or>
       length (filter (\<lambda>r. parentComment r \<noteq> Some (cm_id c))
                 (listed_replies (map fst (getCommentsWithReplies storyId chapterId limit skip s)) s))
         \<le> 5 * (length (getCommentsWithReplies storyId chapterId limit skip s) - 1)
       \<longrightarrow> rs = take 5 (replies_of c s)))"
proof -
  let ?page = "paginate limit skip
         (sort_desc createdAt (filter (top_level_query storyId chapterId) (comments s)))"
  let ?res = "getCommentsWithReplies storyId chapterId limit skip s"
  have res: "?res = populate_nestedReplies ?page s"
    by (simp add: getCommentsWithReplies_def)
  have fst: "map fst ?res = ?page"
    by (simp add: res)
  have len: "length ?res = length ?page"
    using arg_cong [OF fst, of length] by (simp only: length_map)
  have order: "sorted_wrt (\<lambda>a b. createdAt (fst a) \<ge> createdAt (fst b)) ?res"
    by (rule getCommentsWithReplies_newest_first)
  have each: "\<forall>(c, rs)\<in>set ?res.
      c \<in> set (comments s) \<and> top_level_query storyId chapterId c \<and>
      sorted (map createdAt rs) \<and>
      (\<exists>k\<le>5. rs = take k (replies_of c s)) \<and>
      (length (listed_replies (map fst ?res) s) \<le> 5 * length ?res \<or>
       length (filter (\<lambda>r. parentComment r \<noteq> Some (cm_id c)) (listed_replies (map fst ?res) s))
         \<le> 5 * (length ?res - 1)
       \<longrightarrow> rs = take 5 (replies_of c s))"
  proof (rule ballI)
    fix x assume x: "x \<in> set ?res"
    obtain c rs where xe: "x = (c, rs)" by (cases x)
    from getCommentsWithReplies_tops [OF x] xe
    have A: "c \<in> set (comments s)" and B: "top_level_query storyId chapterId c"
      by simp_all
    from x xe have "(c, rs) \<in> set (populate_nestedReplies ?page s)"
      by (simp only: res)
    note N = populate_nestedReplies_carried [OF this]
    from N obtain k where k: "k \<le> 5" "rs = take k (replies_of c s)" by blast
    have "sorted (map createdAt (replies_of c s))"
      by (simp add: replies_of_def sort_asc_def)
    then have "sorted (take k (map createdAt (replies_of c s)))"
      by (rule sorted_wrt_take)
    then have S: "sorted (map createdAt rs)"
      by (simp add: k(2) take_map)
    have E: "\<exists>k\<le>5. rs = take k (replies_of c s)" using N by (rule conjunct1)
    have X: "length (listed_replies (map fst ?res) s) \<le> 5 * length ?res \<or>
       length (filter (\<lambda>r. parentComment r \<noteq> Some (cm_id c)) (listed_replies (map fst ?res) s))
         \<le> 5 * (length ?res - 1)
       \<longrightarrow> rs = take 5 (replies_of c s)"
      using N unfolding fst len by (rule conjunct2)
    show "case x of (c, rs) \<Rightarrow>
      c \<in> set (comments s) \<and> top_level_query storyId chapterId c \<and>
      sorted (map createdAt rs) \<and>
      (\<exists>k\<le>5. rs = take k (replies_of c s)) \<and>
      (length (listed_replies (map fst ?res) s) \<le> 5 * length ?res \<or>
       length (filter (\<lambda>r. parentComment r \<noteq> Some (cm_id c)) (listed_replies (map fst ?res) s))
         \<le> 5 * (length ?res - 1)
       \<longrightarrow> rs = take 5 (replies_of c s))"
      unfolding xe prod.case
      by (rule conjI [OF A conjI [OF B conjI [OF S conjI [OF E X]]]])
  qed
  show ?thesis
    by (rule conjI [OF fst conjI [OF order each]])
qed

lemma thread_demo_db:
  "getCommentsWithReplies ''s1'' None 20 0 demo_db =
     [(mk_comment ''k1'' None 20, []),
      (mk_comment ''k0'' None 10,
       [mk_comment ''r1'' (Some ''k0'') 11, mk_comment ''r2'' (Some ''k0'') 12,
        mk_comment ''r3'' (Some ''k0'') 13, mk_comment ''r4'' (Some ''k0'') 14,
        mk_comment ''r5'' (Some ''k0'') 15])]"
  by (simp add: getCommentsWithReplies_def populate_nestedReplies_def listed_replies_def
      top_level_query_def paginate_def sort_desc_def sort_asc_def demo_db_def mk_comment_def)

lemma replies_of_k0:
  "replies_of (mk_comment ''k0'' None 10) demo_db =
     [mk_comment ''r1'' (Some ''k0'') 11, mk_comment ''r2'' (Some ''k0'') 12,
      mk_comment ''r3'' (Some ''k0'') 13, mk_comment ''r4'' (Some ''k0'') 14,
      mk_comment ''r5'' (Some ''k0'') 15, mk_comment ''r6'' (Some ''k0'') 16]"
  by (simp add: replies_of_def sort_asc_def demo_db_def mk_comment_def)

text \<open>
  The listing of story \<open>s1\<close>: the two top-level comments, newest first; \<open>k0\<close> has six
  replies, the other listed comment none, and \<open>k0\<close> carries its five oldest.
\<close>

theorem thread_listing_witness:
  "map fst (getCommentsWithReplies ''s1'' None 20 0 demo_db)
     = [mk_comment ''k1'' None 20, mk_comment ''k0'' None 10] \<and>
   (mk_comment ''k0'' None 10,
    [mk_comment ''r1'' (Some ''k0'') 11, mk_comment ''r2'' (Some ''k0'') 12,
     mk_comment ''r3'' (Some ''k0'') 13, mk_comment ''r4'' (Some ''k0'') 14,
     mk_comment ''r5'' (Some ''k0'') 15])
     \<in> set (getCommentsWithReplies ''s1'' None 20 0 demo_db) \<and>
   length (filter (\<lambda>r. parentComment r \<noteq> Some (cm_id (mk_comment ''k0'' None 10)))
             (listed_replies (map fst (getCommentsWithReplies ''s1'' None 20 0 demo_db)) demo_db))
     \<le> 5 * (length (getCommentsWithReplies ''s1'' None 20 0 demo_db) - 1) \<and>
   [mk_comment ''r1'' (Some ''k0'') 11, mk_comment ''r2'' (Some ''k0'') 12,
    mk_comment ''r3'' (Some ''k0'') 13, mk_comment ''r4'' (Some ''k0'') 14,
    mk_comment ''r5'' (Some ''k0'') 15]
     = take 5 (replies_of (mk_comment ''k0'' None 10) demo_db)"
proof -
  let ?k0 = "mk_comment ''k0'' None 10"
  let ?rs = "[mk_comment ''r1'' (Some ''k0'') 11, mk_comment ''r2'' (Some ''k0'') 12,
     mk_comment ''r3'' (Some ''k0'') 13, mk_comment ''r4'' (Some ''k0'') 14,
     mk_comment ''r5'' (Some ''k0'') 15]"
  let ?res = "getCommentsWithReplies ''s1'' None 20 0 demo_db"
  have mem: "(?k0, ?rs) \<in> set ?res"
    by (simp add: thread_demo_db)
  have tops: "map fst ?res = [mk_comment ''k1'' None 20, ?k0]"
    by (simp add: thread_demo_db)
  have others: "length (filter (\<lambda>r. parentComment r \<noteq> Some (cm_id ?k0))
             (listed_replies (map fst ?res) demo_db)) \<le> 5 * (length ?res - 1)"
    unfolding tops by (simp add: thread_demo_db listed_replies_def demo_db_def mk_comment_def)
  note all = thread_listing [of "''s1''" None 20 0 demo_db, THEN conjunct2, THEN conjunct2]
  from bspec [OF all mem]
  have "?k0 \<in> set (comments demo_db) \<and> top_level_query ''s1'' None ?k0 \<and>
      sorted (map createdAt ?rs) \<and>
      (\<exists>k\<le>5. ?rs = take k (replies_of ?k0 demo_db)) \<and>
      (length (listed_replies (map fst ?res) demo_db) \<le> 5 * length ?res \<or>
       length (filter (\<lambda>r. parentComment r \<noteq> Some (cm_id ?k0)) (listed_replies (map fst ?res) demo_db))
         \<le> 5 * (length ?res - 1)
       \<longrightarrow> ?rs = take 5 (replies_of ?k0 demo_db))"
    unfolding prod.case .
  then have "length (listed_replies (map fst ?res) demo_db) \<le> 5 * length ?res \<or>
       length (filter (\<lambda>r. parentComment r \<noteq> Some (cm_id ?k0)) (listed_replies (map fst ?res) demo_db))
         \<le> 5 * (length ?res - 1)
       \<longrightarrow> ?rs = take 5 (replies_of ?k0 demo_db)"
    by (elim conjE)
  with others have "?rs = take 5 (replies_of ?k0 demo_db)" by blast
  with tops mem others show ?thesis by blast
qed

text \<open>
  Against claim C7 as stated: of the six non-deleted replies of \<open>k0\<close> the listing carries
  \<open>r1\<close> to \<open>r5\<close>; the most recent reply \<open>r6\<close> is missing and the oldest \<open>r1\<close> is there.
\<close>

theorem thread_listing_counterexample:
  "map (\<lambda>(c, rs). (cm_id c, map cm_id rs)) (getCommentsWithReplies ''s1'' None 20 0 demo_db)
     = [(''k1'', []), (''k0'', [''r1'', ''r2'', ''r3'', ''r4'', ''r5''])] \<and>
   map cm_id (replies_of (mk_comment ''k0'' None 10) demo_db)
     = [''r1'', ''r2'', ''r3'', ''r4'', ''r5'', ''r6''] \<and>
   mk_comment ''r6'' (Some ''k0'') 16 \<in> set (comments demo_db) \<and>
   parentComment (mk_comment ''r6'' (Some ''k0'') 16) = Some ''k0'' \<and>
   isDeleted (mk_comment ''r6'' (Some ''k0'') 16) = False \<and>
   createdAt (mk_comment ''r1'' (Some ''k0'') 11) < createdAt (mk_comment ''r6'' (Some ''k0'') 16)"
  by (simp add: thread_demo_db replies_of_k0) (simp add: demo_db_def mk_comment_def)

subsection \<open>Soft delete\<close>

lemma softDelete_ids: "map cm_id (comments (softDelete now c s)) = map cm_id (comments s)"
  by (simp add: softDelete_def comp_def if_distrib [of cm_id] cong: if_cong)

lemma softDelete_target:
  assumes "x \<in> set (comments (softDelete now c s))" "cm_id x = cm_id c"
  shows "isDeleted x \<and> content x = tombstone \<and> deletedAt x = Some now"
  using assms by (auto simp: softDelete_def split: if_splits)

lemma softDelete_others:
  assumes "r \<in> set (comments s)" "cm_id r \<noteq> cm_id c"
  shows "r \<in> set (comments (softDelete now c s))"
  using assms by (force simp: softDelete_def)

text \<open>
  Claim C6, as the code has it. \<^verbatim>\<open>softDelete\<close> removes no row; the row of the comment gets
  \<^verbatim>\<open>isDeleted\<close> true, the tombstone text and the deletion time; every other row, the
  replies of the comment among them, stays stored as it was. \<^verbatim>\<open>getCommentsWithReplies\<close>
  then lists no entry for the deleted comment (its query asks for \<^verbatim>\<open>isDeleted: false\<close>), so
  the replies are no longer returned under it.
\<close>

theorem softDelete_thread:
  "map cm_id (comments (softDelete now c s)) = map cm_id (comments s) \<and>
   (\<forall>x\<in>set (comments (softDelete now c s)).
      cm_id x = cm_id c \<longrightarrow> isDeleted x \<and> content x = tombstone \<and> deletedAt x = Some now) \<and>
   (\<forall>r\<in>set (comments s). cm_id r \<noteq> cm_id c \<longrightarrow> r \<in> set (comments (softDelete now c s))) \<and>
   (\<forall>(x, rs)\<in>set (getCommentsWithReplies storyId chapterId limit skip (softDelete now c s)).
      cm_id x \<noteq> cm_id c)"
proof -
  have a: "map cm_id (comments (softDelete now c s)) = map cm_id (comments s)"
    by (rule softDelete_ids)
  have b: "\<forall>x\<in>set (comments (softDelete now c s)).
      cm_id x = cm_id c \<longrightarrow> isDeleted x \<and> content x = tombstone \<and> deletedAt x = Some now"
    using softDelete_target by blast
  have c: "\<forall>r\<in>set (comments s). cm_id r \<noteq> cm_id c \<longrightarrow> r \<in> set (comments (softDelete now c s))"
    using softDelete_others by blast
  have d: "\<forall>(x, rs)\<in>set (getCommentsWithReplies storyId chapterId limit skip (softDelete now c s)).
      cm_id x \<noteq> cm_id c"
  proof
    fix p assume "p \<in> set (getCommentsWithReplies storyId chapterId limit skip (softDelete now c s))"
    from getCommentsWithReplies_tops [OF this]
    have m: "fst p \<in> set (comments (softDelete now c s))" and "top_level_query storyId chapterId (fst p)"
      by blast+
    then have "\<not> isDeleted (fst p)" by (simp add: top_level_query_def)
    with softDelete_target [OF m] have "cm_id (fst p) \<noteq> cm_id c" by blast
    then show "case p of (x, rs) \<Rightarrow> cm_id x \<noteq> cm_id c"
      by (simp add: case_prod_beta)
  qed
  show ?thesis
    by (rule conjI [OF a conjI [OF b conjI [OF c d]]])
qed

lemma thread_after_delete:
  "getCommentsWithReplies ''s1'' None 20 0 (softDelete 99 (mk_comment ''k0'' None 10) demo_db)
     = [(mk_comment ''k1'' None 20, [])]"
  by (simp add: getCommentsWithReplies_def populate_nestedReplies_def listed_replies_def
      top_level_query_def paginate_def sort_desc_def sort_asc_def demo_db_def mk_comment_def
      softDelete_def tombstone_def)

lemma reply_after_delete:
  "mk_comment ''r1'' (Some ''k0'') 11 \<in> set (comments (softDelete 99 (mk_comment ''k0'' None 10) demo_db))"
  by (simp add: demo_db_def mk_comment_def softDelete_def)

lemma parent_after_delete:
  "(mk_comment ''k0'' None 10)\<lparr>isDeleted := True, deletedAt := Some 99, content := tombstone,
       isEdited := True, editedAt := Some 99\<rparr>
     \<in> set (comments (softDelete 99 (mk_comment ''k0'' None 10) demo_db))"
  by (simp add: demo_db_def mk_comment_def softDelete_def tombstone_def)

text \<open>
  Soft-deleting comment \<open>k0\<close>: its reply \<open>r1\<close> stays stored, and the listing still has the
  other top-level comment \<open>k1\<close>.
\<close>

theorem softDelete_thread_witness:
  "mk_comment ''r1'' (Some ''k0'') 11 \<in> set (comments demo_db) \<and>
   cm_id (mk_comment ''r1'' (Some ''k0'') 11) \<noteq> cm_id (mk_comment ''k0'' None 10) \<and>
   mk_comment ''r1'' (Some ''k0'') 11 \<in> set (comments (softDelete 99 (mk_comment ''k0'' None 10) demo_db)) \<and>
   (mk_comment ''k1'' None 20, [])
     \<in> set (getCommentsWithReplies ''s1'' None 20 0 (softDelete 99 (mk_comment ''k0'' None 10) demo_db)) \<and>
   cm_id (mk_comment ''k1'' None 20) \<noteq> cm_id (mk_comment ''k0'' None 10)"
proof -
  let ?k0 = "mk_comment ''k0'' None 10" and ?r1 = "mk_comment ''r1'' (Some ''k0'') 11"
  let ?k1 = "mk_comment ''k1'' None 20"
  have a: "?r1 \<in> set (comments demo_db)" by (simp add: demo_db_def)
  have b: "cm_id ?r1 \<noteq> cm_id ?k0" by (simp add: mk_comment_def)
  have c: "(?k1, []) \<in> set (getCommentsWithReplies ''s1'' None 20 0 (softDelete 99 ?k0 demo_db))"
    by (simp add: thread_after_delete)
  note t = softDelete_thread [of 99 ?k0 demo_db "''s1''" None 20 0]
  from t a b have "?r1 \<in> set (comments (softDelete 99 ?k0 demo_db))" by blast
  moreover from t c have "cm_id ?k1 \<noteq> cm_id ?k0" by blast
  ultimately show ?thesis using a b c by blast
qed

text \<open>
  Against claim C6 as stated: before the soft delete the listing has \<open>k0\<close> with its replies;
  after it, the listing has neither \<open>k0\<close> nor any of its replies, although the reply rows
  and the tombstoned parent row are stored.
\<close>

theorem softDelete_thread_counterexample:
  "map (\<lambda>(c, rs). (cm_id c, map cm_id rs)) (getCommentsWithReplies ''s1'' None 20 0 demo_db)
     = [(''k1'', []), (''k0'', [''r1'', ''r2'', ''r3'', ''r4'', ''r5''])] \<and>
   map (\<lambda>(c, rs). (cm_id c, map cm_id rs))
     (getCommentsWithReplies ''s1'' None 20 0 (softDelete 99 (mk_comment ''k0'' None 10) demo_db))
     = [(''k1'', [])] \<and>
   mk_comment ''r1'' (Some ''k0'') 11 \<in> set (comments (softDelete 99 (mk_comment ''k0'' None 10) demo_db)) \<and>
   (mk_comment ''k0'' None 10)\<lparr>isDeleted := True, deletedAt := Some 99, content := tombstone,
       isEdited := True, editedAt := Some 99\<rparr>
     \<in> set (comments (softDelete 99 (mk_comment ''k0'' None 10) demo_db))"
  by (simp add: thread_demo_db thread_after_delete reply_after_delete parent_after_delete)
    (simp add: mk_comment_def)

subsection \<open>Counters under a decrement\<close>

lemmas like_run_defs = toggleLike_def toggleLike_from_def like_save_def like_remove_def
  like_post_save_def like_post_remove_def inc_totalLikes_def like_query_def target_field_def
  new_like_def like_pre_save_def like_duplicate_def

text \<open>
  Claim C4 against the code. Story \<open>s1\<close> has one like and \<^verbatim>\<open>totalLikes\<close> 1. Two unlike
  requests of the same user both find the Like row. The first removes it and the counter
  goes to 0; the second removes it again, its post-remove hook applies \<^verbatim>\<open>$inc: -1\<close> once
  more, and the counter is -1, not \<open>max 0 (0 - 1) = 0\<close>. The same hook on a counter that is
  0 gives -1, and so does the Follow hook on \<^verbatim>\<open>followersCount\<close>; only \<^verbatim>\<open>decrementLikes\<close>
  keeps a counter of 0 at 0.
\<close>

theorem unlike_twice_negative_counter:
  "map_option totalLikes (stories liked_db ''s1'') = Some 1 \<and>
   find (like_query (IdString ''u1'') (IdString ''s1'') Story) (likes liked_db)
     = Some (new_like ''l1'' (IdString ''u1'') (IdString ''s1'') Story) \<and>
   map_option totalLikes
     (stories (snd (toggleLike ''l2'' (IdString ''u1'') (IdString ''s1'') Story liked_db)) ''s1'') = Some 0 \<and>
   fst (toggleLike_from (find (like_query (IdString ''u1'') (IdString ''s1'') Story) (likes liked_db))
          ''l3'' (IdString ''u1'') (IdString ''s1'') Story
          (snd (toggleLike ''l2'' (IdString ''u1'') (IdString ''s1'') Story liked_db)))
     = Inr \<lparr>liked = False, lr_message = ''Unliked successfully''\<rparr> \<and>
   map_option totalLikes
     (stories (snd (toggleLike_from (find (like_query (IdString ''u1'') (IdString ''s1'') Story) (likes liked_db))
          ''l3'' (IdString ''u1'') (IdString ''s1'') Story
          (snd (toggleLike ''l2'' (IdString ''u1'') (IdString ''s1'') Story liked_db)))) ''s1'')
     = Some (- 1) \<and>
   map_option totalLikes
     (stories (like_post_remove (new_like ''l1'' (IdString ''u1'') (IdString ''s1'') Story) demo_db) ''s1'')
     = Some (- 1) \<and>
   map_option followersCount
     (users (follow_post_remove (new_follow ''f1'' 1 (IdString ''u1'') (IdString ''u2'')) demo_db) ''u2'')
     = Some (- 1) \<and>
   map cm_likes (comments (decrementLikes (mk_comment ''k1'' None 20) demo_db))
     = [0, 0, 0, 0, 0, 0, 0, 0]"
  unfolding liked_db_eq
  by (simp add: like_run_defs demo_db_def decrementLikes_def mk_comment_def
      follow_post_remove_def update_user_def new_follow_def mk_user_def)

end
